theory Spec2Isabelle
  imports Main "HOL-Library.Char_ord" "HOL-Library.List_Lexorder" "HOL-Library.Log_Nat"
    "HOL-Library.Multiset"
begin

section \<open>Schedule snapshot\<close>

text \<open>
  The server (Go, \<^verbatim>\<open>package main\<close>) and the client (TypeScript, \<^verbatim>\<open>utils.ts\<close>,
  \<^verbatim>\<open>BusPanel.tsx\<close>) read the same JSON snapshot. The records below are the Go structs;
  the TypeScript interfaces have the same fields under their JSON names.

  Conventions of the embedding.
  \<^item> A \<^verbatim>\<open>float64\<close> that is only stored and compared (a coordinate, a bound) is the
    rational number it denotes; JSON cannot carry NaN or an infinity.
  \<^item> Go's \<^verbatim>\<open>int\<close> is \<open>int\<close>: seconds of a day, digit fields and shape indices are far
    from the 64-bit limits, and no wrap-around is modelled.
  \<^item> A string is a list of bytes, ordered lexicographically as Go's and JavaScript's
    comparison operators order ASCII text.
  \<^item> A Go map that is only looked up is a partial function. The trip table is also
    iterated, so it is an association list: the order of the list is the order of one
    pass of \<^verbatim>\<open>range\<close> (Go) or of \<^verbatim>\<open>Object.keys\<close> (TypeScript).
  \<^item> The clock is read by the callers: \<open>ymd\<close> is \<^verbatim>\<open>now.Format("20060102")\<close>, \<open>weekday\<close> is
    \<^verbatim>\<open>now.Weekday()\<close> (\<^verbatim>\<open>getDay()\<close> in TypeScript, 0 = Sunday) and \<open>nowSec\<close> the second
    of the day.
  \<^item> What the client takes from the JavaScript engine it runs on, the time zone behind
    \<^verbatim>\<open>new Date(y, m, d)\<close> and the collation behind \<^verbatim>\<open>localeCompare\<close>, is a parameter
    \<open>host\<close> of its functions.
\<close>

record StopInfo =
  Name :: string
  Yomi :: string
  Lat :: rat
  Lng :: rat
  Platform :: string

record TripStop =
  Time :: string
  StopID :: string

record TripInfo =
  Headsign :: string
  ServiceID :: string
  OfficeID :: string
  Via :: string
  Stops :: "TripStop list"

record ShapeData =
  Coordinates :: "rat list list"
  StopIndices :: "int list"

record CalendarEntry =
  Days :: "string list"
  Start :: string
  End :: string

record CalendarDateException =
  ExcServiceID :: string
  Date :: string
  ExceptionType :: string

record ExtraData =
  Offices :: "string \<rightharpoonup> string"
  CalendarDates :: "CalendarDateException list"

record RouteInfo =
  ShortName :: string
  Color :: string

type_synonym StopsData = "string \<rightharpoonup> StopInfo"
type_synonym ShapesData = "string \<rightharpoonup> ShapeData"
type_synonym CalendarData = "string \<rightharpoonup> CalendarEntry"
type_synonym RoutesData = "string \<rightharpoonup> RouteInfo"
type_synonym TimetablesData = "(string \<times> (string \<times> TripInfo) list) list"

section \<open>Binary64 arithmetic\<close>

text \<open>
  The interpolator computes in \<^verbatim>\<open>float64\<close> (Go) and in JavaScript numbers, both IEEE 754
  binary64. A finite double is the rational it denotes, and every operation is the exact
  operation followed by \<open>rnd64\<close>, rounding to the nearest double, ties to the even
  significand. The exponent range is not modelled (no overflow, no subnormals): the
  quantities are quotients and products of integers of moderate size.
\<close>

definition rne :: "rat \<Rightarrow> int" where
  "rne x = (let f = \<lfloor>x\<rfloor>; d = x - of_int f in
     if d < 1 / 2 then f else if 1 / 2 < d then f + 1 else if even f then f else f + 1)"

definition expo :: "rat \<Rightarrow> int" where
  "expo x = (case quotient_of \<bar>x\<bar> of (a, b) \<Rightarrow>
     let e = bitlen a - bitlen b in if 2 powi e \<le> \<bar>x\<bar> then e else e - 1)"

definition rnd64 :: "rat \<Rightarrow> rat" where
  "rnd64 x = (if x = 0 then 0
     else of_int (rne (x / 2 powi (expo x - 52))) * 2 powi (expo x - 52))"

definition float64 :: "int \<Rightarrow> rat" where
  "float64 n = rnd64 (of_int n)"

definition fadd :: "rat \<Rightarrow> rat \<Rightarrow> rat" where
  "fadd x y = rnd64 (x + y)"

definition fsub :: "rat \<Rightarrow> rat \<Rightarrow> rat" where
  "fsub x y = rnd64 (x - y)"

definition fmul :: "rat \<Rightarrow> rat \<Rightarrow> rat" where
  "fmul x y = rnd64 (x * y)"

definition fdiv :: "rat \<Rightarrow> rat \<Rightarrow> rat" where
  "fdiv x y = rnd64 (x / y)"

section \<open>Calendar Resolver\<close>

subsection \<open>Dates of the host libraries\<close>

definition isDigit :: "char \<Rightarrow> bool" where
  "isDigit c = (CHR ''0'' \<le> c \<and> c \<le> CHR ''9'')"

definition digitVal :: "char \<Rightarrow> int" where
  "digitVal c = int (of_char c) - 48"

definition decimal :: "string \<Rightarrow> int" where
  "decimal s = foldl (\<lambda>n c. 10 * n + digitVal c) 0 s"

definition isLeap :: "int \<Rightarrow> bool" where
  "isLeap year = (year mod 4 = 0 \<and> (year mod 100 \<noteq> 0 \<or> year mod 400 = 0))"

definition daysIn :: "int \<Rightarrow> int \<Rightarrow> int" where
  "daysIn m year =
     (if m = 2 then (if isLeap year then 29 else 28)
      else if m = 4 \<or> m = 6 \<or> m = 9 \<or> m = 11 then 30 else 31)"

definition daysBefore :: "int \<Rightarrow> int" where
  "daysBefore m = [0, 31, 59, 90, 120, 151, 181, 212, 243, 273, 304, 334] ! nat (m - 1)"

text \<open>Days from 1 January of year 1 (proleptic Gregorian) to the given date; \<open>m\<close> in 1..12.\<close>

definition dateToDays :: "int \<Rightarrow> int \<Rightarrow> int \<Rightarrow> int" where
  "dateToDays year m d =
     365 * (year - 1) + (year - 1) div 4 - (year - 1) div 100 + (year - 1) div 400
       + daysBefore m + (if 2 < m \<and> isLeap year then 1 else 0) + d - 1"

text \<open>
  Go's \<^verbatim>\<open>time.Parse("20060102", value)\<close>: four digits of year, two of month, two of day
  and nothing else; a month outside 1..12 or a day outside the month is an error. The
  result is the day number of the date (the time is midnight UTC).
\<close>

definition time_Parse :: "string \<Rightarrow> int option" where
  "time_Parse value =
     (if length value = 8 \<and> list_all isDigit value then
        let year = decimal (take 4 value);
            month = decimal (take 2 (drop 4 value));
            day = decimal (drop 6 value)
        in if month < 1 \<or> 12 < month \<or> day < 1 \<or> daysIn month year < day then None
           else Some (dateToDays year month day)
      else None)"

text \<open>
  The code drops the error of \<^verbatim>\<open>time.Parse\<close>; the value is then the zero \<^verbatim>\<open>Time\<close>,
  1 January of year 1, which is day 0.
\<close>

definition parseOrZero :: "string \<Rightarrow> int" where
  "parseOrZero value = (case time_Parse value of None \<Rightarrow> 0 | Some t \<Rightarrow> t)"

text \<open>
  \<^verbatim>\<open>t.Sub(u)\<close> is a \<^verbatim>\<open>Duration\<close>, an int64 count of nanoseconds that saturates;
  \<^verbatim>\<open>Hours()\<close> is its value in hours. Both arguments are midnights, given as day numbers.
  For a whole number of days the double that \<^verbatim>\<open>Hours() / 24\<close> yields is that number, and
  a saturated duration is more than 100000 days long, so the exact quotient below
  compares with 20 as the double does.
\<close>

definition Sub :: "int \<Rightarrow> int \<Rightarrow> int" where
  "Sub t u =
     (let d = (t - u) * 86400 * 10 ^ 9
      in if d < - (2 ^ 63) then - (2 ^ 63) else if 2 ^ 63 - 1 < d then 2 ^ 63 - 1 else d)"

definition Hours :: "int \<Rightarrow> rat" where
  "Hours d = of_int d / (3600 * 10 ^ 9)"

text \<open>
  JavaScript's \<^verbatim>\<open>Number(s)\<close> on a piece of a date or time string; \<open>None\<close> is NaN. The
  empty string is 0 and a string of decimal digits is the nearest double of its value.
  Every other text is NaN here; JavaScript also reads signs, fractions, exponents,
  hexadecimal literals and surrounding white space, which the fields of a snapshot do not
  contain.
\<close>

definition Number :: "string \<Rightarrow> rat option" where
  "Number s =
     (if s = [] then Some 0
      else if list_all isDigit s then Some (float64 (decimal s)) else None)"

text \<open>
  The JavaScript engine under the client. \<open>utcOffset host day\<close> is the offset of its local
  time from UTC, in milliseconds, at local midnight of the day with that number (days are
  counted from 1 January of year 1, as above); it changes with the day where clocks are
  set forward and back in the course of the year. \<open>localeCompare host s t\<close> is the number
  that \<^verbatim>\<open>s.localeCompare(t)\<close> returns: negative, zero or positive as the collation of the
  host puts \<open>s\<close> before \<open>t\<close>, level with it or after it.
\<close>

record Host =
  utcOffset :: "int \<Rightarrow> int"
  localeCompare :: "string \<Rightarrow> string \<Rightarrow> int"

text \<open>
  A time value is a count of milliseconds from 1 January 1970 UTC, at most
  \<open>8.64 * 10\<^sup>1\<^sup>5\<close> in absolute value; \<^verbatim>\<open>TimeClip\<close> turns any other time into NaN, here
  \<open>None\<close>. A time value is an integer below \<open>2\<^sup>5\<^sup>3\<close>, hence a double.
\<close>

definition TimeClip :: "int \<Rightarrow> int option" where
  "TimeClip t = (if \<bar>t\<bar> \<le> 8640000000000000 then Some t else None)"

text \<open>
  \<^verbatim>\<open>new Date(y, m, d).getTime()\<close> for integral arguments: a year from 0 to 99 means
  1900 + year, months and days out of range carry over, and the date is midnight in the
  local time of the host. 1 January 1970 is day 719162.
\<close>

definition Date_getTime :: "Host \<Rightarrow> int \<Rightarrow> int \<Rightarrow> int \<Rightarrow> int option" where
  "Date_getTime host y m d =
     (let yr = (if 0 \<le> y \<and> y \<le> 99 then 1900 + y else y);
          ym = yr + m div 12;
          mn = m mod 12;
          day = dateToDays ym (mn + 1) 1 + d - 1
      in TimeClip ((day - 719162) * 86400000 - utcOffset host day))"

definition newDate :: "Host \<Rightarrow> string \<Rightarrow> int option" where
  "newDate host s =
     (case (Number (take 4 s), Number (take 2 (drop 4 s)), Number (take 2 (drop 6 s))) of
        (Some y, Some m, Some d) \<Rightarrow> Date_getTime host \<lfloor>y\<rfloor> (\<lfloor>m\<rfloor> - 1) \<lfloor>d\<rfloor>
      | _ \<Rightarrow> None)"

subsection \<open>The weekday flag\<close>

text \<open>
  The flag of a calendar entry for the weekday of the clock: the entry of \<open>Days\<close> at
  \<open>(weekday + 6) mod 7\<close> is the text \<^verbatim>\<open>"1"\<close>. An entry that does not exist counts as not
  set (Go checks the index, JavaScript reads \<^verbatim>\<open>undefined\<close>).
\<close>

definition weekdayFlag :: "CalendarEntry \<Rightarrow> nat \<Rightarrow> bool" where
  "weekdayFlag cal weekday =
     (let gtfsDayIdx = (weekday + 6) mod 7
      in gtfsDayIdx < length (Days cal) \<and> Days cal ! gtfsDayIdx = ''1'')"

subsection \<open>Server: \<^verbatim>\<open>isServiceRunningToday\<close> (Go)\<close>

text \<open>The loop over \<^verbatim>\<open>extraCache.CalendarDates\<close>; \<open>Some b\<close> is \<^verbatim>\<open>return b\<close>.\<close>

fun exceptionLoop :: "CalendarDateException list \<Rightarrow> string \<Rightarrow> string \<Rightarrow> bool option" where
  "exceptionLoop [] ymd serviceID = None"
| "exceptionLoop (exception # rest) ymd serviceID =
     (if Date exception = ymd \<and> ExcServiceID exception = serviceID
      then Some (ExceptionType exception = ''1'')
      else exceptionLoop rest ymd serviceID)"

definition durationDays_go :: "CalendarEntry \<Rightarrow> rat" where
  "durationDays_go cal =
     (let startDate = parseOrZero (Start cal);
          endDate = parseOrZero (End cal)
      in Hours (Sub endDate startDate) / 24)"

definition isServiceRunningToday_go ::
  "ExtraData \<Rightarrow> CalendarData \<Rightarrow> string \<Rightarrow> nat \<Rightarrow> string \<Rightarrow> bool" where
  "isServiceRunningToday_go extraCache calendarCache ymd weekday serviceID =
     (case exceptionLoop (CalendarDates extraCache) ymd serviceID of
        Some b \<Rightarrow> b
      | None \<Rightarrow>
          (case calendarCache serviceID of
             None \<Rightarrow> False
           | Some cal \<Rightarrow>
               let gtfsDayIdx = (weekday + 6) mod 7 in
               if Start cal \<le> ymd \<and> ymd \<le> End cal \<and> gtfsDayIdx < length (Days cal)
               then Days cal ! gtfsDayIdx = ''1''
               else if 20 \<le> durationDays_go cal \<and> gtfsDayIdx < length (Days cal)
               then Days cal ! gtfsDayIdx = ''1''
               else False))"

subsection \<open>Client: \<^verbatim>\<open>isServiceRunningToday\<close> (TypeScript)\<close>

text \<open>
  \<^verbatim>\<open>(endDate.getTime() - startDate.getTime()) / (1000 * 60 * 60 * 24)\<close>, in binary64;
  \<open>None\<close> is NaN, which is not at least 20.
\<close>

definition durationDays_ts :: "Host \<Rightarrow> CalendarEntry \<Rightarrow> rat option" where
  "durationDays_ts host cal =
     (case (newDate host (Start cal), newDate host (End cal)) of
        (Some startDate, Some endDate) \<Rightarrow>
          Some (fdiv (fsub (of_int endDate) (of_int startDate)) 86400000)
      | _ \<Rightarrow> None)"

definition days_at :: "string list \<Rightarrow> nat \<Rightarrow> string option" where
  "days_at days i = (if i < length days then Some (days ! i) else None)"

definition isServiceRunningToday_ts ::
  "Host \<Rightarrow> CalendarData \<Rightarrow> ExtraData \<Rightarrow> string \<Rightarrow> nat \<Rightarrow> string \<Rightarrow> bool" where
  "isServiceRunningToday_ts host calendarData extraData ymd weekday serviceId =
     (case find (\<lambda>d. Date d = ymd \<and> ExcServiceID d = serviceId) (CalendarDates extraData) of
        Some exception \<Rightarrow> ExceptionType exception = ''1''
      | None \<Rightarrow>
          (case calendarData serviceId of
             None \<Rightarrow> False
           | Some cal \<Rightarrow>
               if Start cal \<le> ymd \<and> ymd \<le> End cal
               then days_at (Days cal) ((weekday + 6) mod 7) = Some ''1''
               else (case durationDays_ts host cal of
                       None \<Rightarrow> False
                     | Some durationDays \<Rightarrow>
                         if 20 \<le> durationDays
                         then days_at (Days cal) ((weekday + 6) mod 7) = Some ''1''
                         else False)))"

subsection \<open>The rule of the specification\<close>






subsection \<open>Scenarios\<close>

definition weekdaysOnly :: "string list" where
  "weekdaysOnly = [''1'', ''1'', ''1'', ''1'', ''1'', ''0'', ''0'']"

definition neverRuns :: "string list" where
  "neverRuns = [''0'', ''0'', ''0'', ''0'', ''0'', ''0'', ''0'']"


definition longCal :: CalendarEntry where
  "longCal = \<lparr>Days = weekdaysOnly, Start = ''20230101'', End = ''20231231''\<rparr>"



text \<open>
  Three hosts. The first is nine hours ahead of UTC all year, as a host in Sendai is. The
  second is five hours behind UTC until 10 March 2024 and four hours behind from the next
  midnight on, as a host in New York is. Both order texts by their bytes. The third is
  the first with a collation that compares texts from the left and puts every digit after
  every other character, the colon among them, in the way of the root collation of
  Unicode.
\<close>

definition byteCompare :: "string \<Rightarrow> string \<Rightarrow> int" where
  "byteCompare s t = (if s < t then - 1 else if s = t then 0 else 1)"

definition demoHost :: Host where
  "demoHost = \<lparr>utcOffset = (\<lambda>day. 32400000), localeCompare = byteCompare\<rparr>"


definition collationKey :: "char \<Rightarrow> nat" where
  "collationKey c = (if isDigit c then 256 + of_char c else of_char c)"

definition keyCompare :: "string \<Rightarrow> string \<Rightarrow> int" where
  "keyCompare s t =
     (let a = map collationKey s; b = map collationKey t
      in if a < b then - 1 else if a = b then 0 else 1)"

definition punctFirstHost :: Host where
  "punctFirstHost = \<lparr>utcOffset = (\<lambda>day. 32400000), localeCompare = keyCompare\<rparr>"

definition calendarOf :: "string \<Rightarrow> CalendarEntry \<Rightarrow> CalendarData" where
  "calendarOf sid cal = [sid \<mapsto> cal]"

definition noExtra :: ExtraData where
  "noExtra = \<lparr>Offices = Map.empty, CalendarDates = []\<rparr>"

definition extraOf :: "CalendarDateException list \<Rightarrow> ExtraData" where
  "extraOf es = \<lparr>Offices = Map.empty, CalendarDates = es\<rparr>"

section \<open>Position Interpolator\<close>

subsection \<open>Time strings\<close>

text \<open>\<^verbatim>\<open>strings.Split(t, sep)\<close> and \<^verbatim>\<open>t.split(sep)\<close> for a separator of one character.\<close>

fun splitOn :: "char \<Rightarrow> string \<Rightarrow> string list" where
  "splitOn sep [] = [[]]"
| "splitOn sep (c # cs) =
     (if c = sep then [] # splitOn sep cs
      else (case splitOn sep cs of [] \<Rightarrow> [[c]] | p # ps \<Rightarrow> (c # p) # ps))"

text \<open>
  \<^verbatim>\<open>strconv.Atoi\<close> with the error dropped, as the code does: the value of an optionally
  signed string of decimal digits, and 0 for any other text.
\<close>

definition Atoi :: "string \<Rightarrow> int" where
  "Atoi s =
     (let neg = (case s of [] \<Rightarrow> False | c # r \<Rightarrow> c = CHR ''-'');
          ds = (case s of [] \<Rightarrow> [] | c # r \<Rightarrow> if c = CHR ''-'' \<or> c = CHR ''+'' then r else s)
      in if ds \<noteq> [] \<and> list_all isDigit ds
         then (if neg then - decimal ds else decimal ds)
         else 0)"

definition timeToSec_go :: "string \<Rightarrow> int" where
  "timeToSec_go t =
     (let parts = splitOn CHR '':'' t in
      if length parts < 2 then 0
      else
        let hours = Atoi (parts ! 0);
            minutes = Atoi (parts ! 1);
            seconds = (if 3 \<le> length parts then Atoi (parts ! 2) else 0)
        in hours * 3600 + minutes * 60 + seconds)"

text \<open>
  JavaScript numbers in \<^verbatim>\<open>timeToSec\<close> and \<^verbatim>\<open>calculateBusPos\<close>: \<open>None\<close> is NaN, which
  is also what arithmetic makes of \<^verbatim>\<open>undefined\<close>, the value of an array read out of
  range.
\<close>

type_synonym jsnum = "rat option"

definition js_add :: "jsnum \<Rightarrow> jsnum \<Rightarrow> jsnum" where
  "js_add a b = (case (a, b) of (Some x, Some y) \<Rightarrow> Some (fadd x y) | _ \<Rightarrow> None)"

definition js_sub :: "jsnum \<Rightarrow> jsnum \<Rightarrow> jsnum" where
  "js_sub a b = (case (a, b) of (Some x, Some y) \<Rightarrow> Some (fsub x y) | _ \<Rightarrow> None)"

definition js_mul :: "jsnum \<Rightarrow> jsnum \<Rightarrow> jsnum" where
  "js_mul a b = (case (a, b) of (Some x, Some y) \<Rightarrow> Some (fmul x y) | _ \<Rightarrow> None)"

definition js_le :: "jsnum \<Rightarrow> jsnum \<Rightarrow> bool" where
  "js_le a b = (case (a, b) of (Some x, Some y) \<Rightarrow> x \<le> y | _ \<Rightarrow> False)"

definition js_less :: "jsnum \<Rightarrow> jsnum \<Rightarrow> bool" where
  "js_less a b = (case (a, b) of (Some x, Some y) \<Rightarrow> x < y | _ \<Rightarrow> False)"

definition js_at :: "'a list \<Rightarrow> nat \<Rightarrow> 'a option" where
  "js_at xs i = (if i < length xs then Some (xs ! i) else None)"

text \<open>Reading an array at an integral number: \<^verbatim>\<open>undefined\<close> outside \<open>0 .. length - 1\<close>.\<close>

definition js_at' :: "'a list \<Rightarrow> int \<Rightarrow> 'a option" where
  "js_at' xs k = (if 0 \<le> k \<and> k < int (length xs) then Some (xs ! nat k) else None)"

definition timeToSec_ts :: "string \<Rightarrow> jsnum" where
  "timeToSec_ts t =
     (if t = [] then Some 0
      else
        let parts = map Number (splitOn CHR '':'' t) in
        js_add
          (js_add (js_mul (Option.bind (js_at parts 0) id) (Some 3600))
                  (js_mul (Option.bind (js_at parts 1) id) (Some 60)))
          (case Option.bind (js_at parts 2) id of None \<Rightarrow> Some 0 | Some v \<Rightarrow> Some v))"

text \<open>The pattern key: \<^verbatim>\<open>strings.Join(stopIDs, "|")\<close>, \<^verbatim>\<open>.join("|")\<close>.\<close>

fun joinWith :: "string \<Rightarrow> string list \<Rightarrow> string" where
  "joinWith sep [] = []"
| "joinWith sep [x] = x"
| "joinWith sep (x # y # ys) = x @ sep @ joinWith sep (y # ys)"

definition patternKeyOf :: "TripStop list \<Rightarrow> string" where
  "patternKeyOf stops = joinWith ''|'' (map StopID stops)"

subsection \<open>Server: \<^verbatim>\<open>calculateBusPosition\<close> (Go)\<close>

text \<open>
  What a call can end in besides a value. \<open>IndexOutOfRange\<close> is Go's run-time panic on a
  slice index. A \<^verbatim>\<open>float64\<close> division by zero does not panic, it yields an infinity or
  NaN, and the conversion of such a value to \<^verbatim>\<open>int\<close> is not defined by the language;
  \<open>RatioNotFinite\<close> stands for a run that divides by zero.
\<close>

datatype fault = IndexOutOfRange | RatioNotFinite

text \<open>
  The body of the \<^verbatim>\<open>if\<close> inside the loop, for the pair \<open>i\<close>, \<open>i + 1\<close> with stop times
  \<open>s1\<close> and \<open>s2\<close>. \<open>Inr (Some k)\<close>: the code returns \<^verbatim>\<open>coords[k]\<close>, with \<open>k\<close> the final value
  of \<^verbatim>\<open>targetIndex\<close>. The two reads of \<^verbatim>\<open>indices\<close> panic when the slice is too short, and
  so does the read of \<^verbatim>\<open>coords\<close> at a negative index.
\<close>

definition targetIndex_go ::
  "rat list list \<Rightarrow> int list \<Rightarrow> int \<Rightarrow> int \<Rightarrow> int \<Rightarrow> nat \<Rightarrow> fault + int option" where
  "targetIndex_go coords indices nowSec s1 s2 i =
     (if length indices \<le> i + 1 then Inl IndexOutOfRange
      else if float64 (s2 - s1) = 0 then Inl RatioNotFinite
      else
        let timeRatio = fdiv (float64 (nowSec - s1)) (float64 (s2 - s1));
            targetIndex =
              \<lfloor>fadd (float64 (indices ! i))
                    (fmul (float64 (indices ! (i + 1) - indices ! i)) timeRatio)\<rfloor>;
            targetIndex' =
              (if int (length coords) \<le> targetIndex then int (length coords) - 1
               else targetIndex)
        in if targetIndex' < 0 then Inl IndexOutOfRange else Inr (Some targetIndex'))"

text \<open>
  The loop of \<^verbatim>\<open>calculateBusPosition\<close> from \<open>i\<close> on; \<open>Inr None\<close>: the loop ends and the
  function returns \<^verbatim>\<open>nil\<close>.
\<close>

function calculateBusPosition_loop ::
  "TripStop list \<Rightarrow> rat list list \<Rightarrow> int list \<Rightarrow> int \<Rightarrow> nat \<Rightarrow> fault + int option" where
  "calculateBusPosition_loop stops coords indices nowSec i =
     (if i + 1 < length stops then
        let s1 = timeToSec_go (Time (stops ! i));
            s2 = timeToSec_go (Time (stops ! (i + 1)))
        in
          if s1 \<le> nowSec \<and> nowSec < s2
          then targetIndex_go coords indices nowSec s1 s2 i
          else calculateBusPosition_loop stops coords indices nowSec (i + 1)
      else Inr None)"
  by pat_completeness auto
termination
  by (relation "measure (\<lambda>(stops, coords, indices, nowSec, i). length stops - i)") auto

declare calculateBusPosition_loop.simps [simp del]

definition calculateBusPosition_index ::
  "ShapesData \<Rightarrow> TripInfo \<Rightarrow> int \<Rightarrow> string \<Rightarrow> fault + int option" where
  "calculateBusPosition_index shapesCache trip nowSec patternKey =
     (case shapesCache patternKey of
        None \<Rightarrow> Inr None
      | Some shape \<Rightarrow>
          if length (Coordinates shape) = 0 \<or> length (StopIndices shape) = 0 then Inr None
          else calculateBusPosition_loop (Stops trip) (Coordinates shape) (StopIndices shape)
                 nowSec 0)"

text \<open>\<open>Inr None\<close> is the \<^verbatim>\<open>nil\<close> slice, \<open>Inr (Some c)\<close> the coordinate \<open>c\<close>.\<close>

definition calculateBusPosition ::
  "ShapesData \<Rightarrow> TripInfo \<Rightarrow> int \<Rightarrow> string \<Rightarrow> fault + rat list option" where
  "calculateBusPosition shapesCache trip nowSec patternKey =
     (case calculateBusPosition_index shapesCache trip nowSec patternKey of
        Inl f \<Rightarrow> Inl f
      | Inr None \<Rightarrow> Inr None
      | Inr (Some k) \<Rightarrow>
          (case shapesCache patternKey of
             None \<Rightarrow> Inr None
           | Some shape \<Rightarrow> Inr (Some (Coordinates shape ! nat k))))"

subsection \<open>Client: \<^verbatim>\<open>calculateBusPos\<close> (TypeScript)\<close>

text \<open>
  The result is \<open>None\<close> for \<^verbatim>\<open>null\<close> and for \<^verbatim>\<open>undefined\<close>, which is what reading
  \<^verbatim>\<open>coords\<close> at NaN, at a negative index or past the end gives. JavaScript does not
  fail on a division by zero either; \<open>RatioNotFinite\<close> again stands for a run that
  performs one. The fields of a shape are lists, so the two tests for a missing field have
  no counterpart, and an empty list passes them as an empty array does.
\<close>

definition targetCoord_ts ::
  "rat list list \<Rightarrow> int list \<Rightarrow> int \<Rightarrow> jsnum \<Rightarrow> jsnum \<Rightarrow> nat \<Rightarrow> fault + rat list option" where
  "targetCoord_ts coords indices nowSec s1 s2 i =
     (if js_sub s2 s1 = Some 0 then Inl RatioNotFinite
      else
        let timeRatio =
              (case (js_sub (Some (float64 nowSec)) s1, js_sub s2 s1) of
                 (Some a, Some b) \<Rightarrow> Some (fdiv a b)
               | _ \<Rightarrow> None);
            index_i = map_option float64 (js_at indices i);
            index_j = map_option float64 (js_at indices (i + 1));
            targetIndex =
              map_option floor (js_add index_i (js_mul (js_sub index_j index_i) timeRatio))
        in
          (case targetIndex of
             None \<Rightarrow> Inr None
           | Some k \<Rightarrow> Inr (js_at' coords (min k (int (length coords) - 1)))))"

function calculateBusPos_loop ::
  "TripStop list \<Rightarrow> rat list list \<Rightarrow> int list \<Rightarrow> int \<Rightarrow> nat \<Rightarrow> fault + rat list option" where
  "calculateBusPos_loop stops coords indices nowSec i =
     (if i + 1 < length stops then
        let s1 = timeToSec_ts (Time (stops ! i));
            s2 = timeToSec_ts (Time (stops ! (i + 1)))
        in
          if js_le s1 (Some (float64 nowSec)) \<and> js_less (Some (float64 nowSec)) s2
          then targetCoord_ts coords indices nowSec s1 s2 i
          else calculateBusPos_loop stops coords indices nowSec (i + 1)
      else Inr None)"
  by pat_completeness auto
termination
  by (relation "measure (\<lambda>(stops, coords, indices, nowSec, i). length stops - i)") auto

declare calculateBusPos_loop.simps [simp del]

definition calculateBusPos ::
  "TripInfo \<Rightarrow> int \<Rightarrow> ShapesData \<Rightarrow> fault + rat list option" where
  "calculateBusPos trip nowSec shapesData =
     (let patternKey = patternKeyOf (Stops trip) in
      case shapesData patternKey of
        None \<Rightarrow> Inr None
      | Some shapeData \<Rightarrow>
          calculateBusPos_loop (Stops trip) (Coordinates shapeData) (StopIndices shapeData)
            nowSec 0)"

subsection \<open>The interpolation of the specification\<close>

definition stopTime :: "TripInfo \<Rightarrow> nat \<Rightarrow> int" where
  "stopTime trip i = timeToSec_go (Time (Stops trip ! i))"

text \<open>
  The pair \<open>(s\<^sub>i, s\<^sub>i\<^sub>+\<^sub>1)\<close> with \<open>s\<^sub>i \<le> now < s\<^sub>i\<^sub>+\<^sub>1\<close>, the first one if there are several
  (there is at most one when the times do not decrease).
\<close>

definition activeInterval :: "TripInfo \<Rightarrow> int \<Rightarrow> nat option" where
  "activeInterval trip now =
     find (\<lambda>i. stopTime trip i \<le> now \<and> now < stopTime trip (i + 1))
       [0 ..< length (Stops trip) - 1]"


definition doubleIndex :: "int \<Rightarrow> int \<Rightarrow> int \<Rightarrow> int \<Rightarrow> int \<Rightarrow> int" where
  "doubleIndex a b now s1 s2 =
     \<lfloor>fadd (float64 a) (fmul (float64 (b - a)) (fdiv (float64 (now - s1)) (float64 (s2 - s1))))\<rfloor>"


text \<open>
  A trip of one minute over 75 positions of a straight shape of 76 coordinates; 44
  seconds after the first stop the exact target index is \<open>75 * 44 / 60 = 55\<close>.
\<close>

definition minuteTrip :: TripInfo where
  "minuteTrip = \<lparr>Headsign = ''Sendai'', ServiceID = ''S1'', OfficeID = ''O1'', Via = [],
     Stops = [\<lparr>Time = ''08:00:00'', StopID = ''A''\<rparr>, \<lparr>Time = ''08:01:00'', StopID = ''B''\<rparr>]\<rparr>"

definition straightShape :: ShapeData where
  "straightShape = \<lparr>Coordinates = map (\<lambda>i. [of_int i, 0]) [0 .. 75], StopIndices = [0, 75]\<rparr>"

definition minuteShapes :: ShapesData where
  "minuteShapes = [''A|B'' \<mapsto> straightShape]"

text \<open>
  A trip of three stops over a shape of 101 coordinates, the second stop at position
  75.
\<close>

definition cornerTrip :: TripInfo where
  "cornerTrip = \<lparr>Headsign = ''Izumi'', ServiceID = ''S1'', OfficeID = ''O1'', Via = [],
     Stops = [\<lparr>Time = ''08:00:00'', StopID = ''A''\<rparr>, \<lparr>Time = ''08:01:00'', StopID = ''B''\<rparr>,
              \<lparr>Time = ''08:03:00'', StopID = ''C''\<rparr>]\<rparr>"

definition cornerShape :: ShapeData where
  "cornerShape = \<lparr>Coordinates = map (\<lambda>i. [of_int i, 0]) [0 .. 100], StopIndices = [0, 75, 100]\<rparr>"

definition cornerShapes :: ShapesData where
  "cornerShapes = [''A|B|C'' \<mapsto> cornerShape]"

subsection \<open>Well-formed input\<close>

text \<open>A time of day \<^verbatim>\<open>HH:MM:SS\<close>: two decimal digits each, separated by colons.\<close>

definition wellFormedTime :: "string \<Rightarrow> bool" where
  "wellFormedTime t =
     (length t = 8 \<and> t ! 2 = CHR '':'' \<and> t ! 5 = CHR '':''
      \<and> isDigit (t ! 0) \<and> isDigit (t ! 1) \<and> isDigit (t ! 3) \<and> isDigit (t ! 4)
      \<and> isDigit (t ! 6) \<and> isDigit (t ! 7))"



section \<open>Vehicle Locator\<close>

text \<open>The caches that \<^verbatim>\<open>loadAllData\<close> fills once, the global variables of the server.\<close>

record Snapshot =
  stopsCache :: StopsData
  timetablesCache :: TimetablesData
  shapesCache :: ShapesData
  calendarCache :: CalendarData
  extraCache :: ExtraData
  routesCache :: RoutesData



text \<open>\<^verbatim>\<open>routesCache[routeID]\<close>: the zero \<^verbatim>\<open>RouteInfo\<close> for a route that is not in the map.\<close>

definition routeInfoOf :: "RoutesData \<Rightarrow> string \<Rightarrow> RouteInfo" where
  "routeInfoOf routes routeID =
     (case routes routeID of None \<Rightarrow> \<lparr>ShortName = [], Color = []\<rparr> | Some routeInfo \<Rightarrow> routeInfo)"





subsection \<open>The locator of the specification\<close>

text \<open>All trips of the table with their route and trip identifiers, in the order of a pass.\<close>

definition allTrips :: "TimetablesData \<Rightarrow> (string \<times> string \<times> TripInfo) list" where
  "allTrips tt =
     concat (map (\<lambda>(routeID, trips). map (\<lambda>(tripID, trip). (routeID, tripID, trip)) trips) tt)"






section \<open>Trip detail and stop timetable\<close>

datatype notFound = RouteNotFound | TripNotFound | StopNotFound

text \<open>
  \<^verbatim>\<open>Shape\<close> is a pointer, \<^verbatim>\<open>*ShapeData\<close>: \<open>None\<close> is the nil pointer, which JSON shows as
  \<^verbatim>\<open>null\<close>.
\<close>

record TripDetailResponse =
  detail_TripID :: string
  detail_RouteID :: string
  detail_RouteName :: string
  RouteColor :: string
  Trip :: TripInfo
  detail_Stops :: StopsData
  Shape :: "ShapeData option"
  OfficeName :: string

record StopTimetableResponse =
  resp_StopID :: string
  StopName :: string
  Timetables :: "string \<rightharpoonup> (string \<rightharpoonup> TripInfo)"

text \<open>The handler of \<^verbatim>\<open>/api/trips/:routeId/:tripId\<close>; \<open>Inl\<close> is an answer 404.\<close>

definition getTripDetail :: "Snapshot \<Rightarrow> string \<Rightarrow> string \<Rightarrow> notFound + TripDetailResponse" where
  "getTripDetail snap routeID tripID =
     (case map_of (timetablesCache snap) routeID of
        None \<Rightarrow> Inl RouteNotFound
      | Some routeTrips \<Rightarrow>
          (case map_of routeTrips tripID of
             None \<Rightarrow> Inl TripNotFound
           | Some trip \<Rightarrow>
               let tripStops =
                     fold (\<lambda>ts m. case stopsCache snap (StopID ts) of
                                     None \<Rightarrow> m
                                   | Some stop \<Rightarrow> m(StopID ts \<mapsto> stop))
                       (Stops trip) Map.empty;
                   patternKey = patternKeyOf (Stops trip);
                   shape = (case shapesCache snap patternKey of
                              None \<Rightarrow> \<lparr>Coordinates = [], StopIndices = []\<rparr>
                            | Some s \<Rightarrow> s);
                   routeInfo = routeInfoOf (routesCache snap) routeID;
                   officeName = (case Offices (extraCache snap) (OfficeID trip) of
                                   None \<Rightarrow> []
                                 | Some n \<Rightarrow> n)
               in Inr \<lparr>detail_TripID = tripID, detail_RouteID = routeID,
                        detail_RouteName = ShortName routeInfo, RouteColor = Color routeInfo,
                        Trip = trip, detail_Stops = tripStops, Shape = Some shape,
                        OfficeName = officeName\<rparr>))"

text \<open>
  The handler of \<^verbatim>\<open>/api/stops/:stopId/timetable\<close>. The innermost loop looks for the stop in
  the stop list of the trip and leaves at the first hit.
\<close>

definition filterBody ::
  "string \<Rightarrow> string \<Rightarrow> string \<Rightarrow> TripInfo \<Rightarrow> (string \<rightharpoonup> (string \<rightharpoonup> TripInfo))
     \<Rightarrow> (string \<rightharpoonup> (string \<rightharpoonup> TripInfo))" where
  "filterBody stopID routeID tripID trip filteredTimetables =
     (case find (\<lambda>ts. StopID ts = stopID) (Stops trip) of
        None \<Rightarrow> filteredTimetables
      | Some ts \<Rightarrow>
          filteredTimetables
            (routeID \<mapsto>
               (case filteredTimetables routeID of None \<Rightarrow> Map.empty | Some m \<Rightarrow> m)
                 (tripID \<mapsto> trip)))"

definition getStopTimetable :: "Snapshot \<Rightarrow> string \<Rightarrow> notFound + StopTimetableResponse" where
  "getStopTimetable snap stopID =
     (case stopsCache snap stopID of
        None \<Rightarrow> Inl StopNotFound
      | Some stop \<Rightarrow>
          let filteredTimetables =
                fold (\<lambda>(routeID, trips) f.
                        fold (\<lambda>(tripID, trip) f. filterBody stopID routeID tripID trip f) trips f)
                  (timetablesCache snap) Map.empty
          in Inr \<lparr>resp_StopID = stopID, StopName = Name stop, Timetables = filteredTimetables\<rparr>)"

section \<open>Arrival Aggregator\<close>

text \<open>
  The stop panel of the client, \<^verbatim>\<open>BusPanel.tsx\<close>. \<open>data\<close> is the \<^verbatim>\<open>AppData\<close> of the client:
  its objects are iterated with \<^verbatim>\<open>Object.keys\<close>, so they are association lists.
\<close>

record AppData =
  data_stops :: "(string \<times> StopInfo) list"
  data_shapes :: ShapesData
  data_timetables :: TimetablesData
  data_calendar :: CalendarData
  data_routes :: RoutesData
  data_extra :: ExtraData

record Arrival =
  time :: string
  route_id :: string
  trip_id :: string
  headsign :: string
  via :: string
  platform :: string
  actual_stop_id :: string
  is_past :: bool

text \<open>
  \<^verbatim>\<open>targetIds\<close>: below zoom 16.5 all stops with the name of the selected stop, else the
  selected stop alone.
\<close>

definition targetIdsOf :: "AppData \<Rightarrow> rat \<Rightarrow> string \<Rightarrow> StopInfo \<Rightarrow> string list" where
  "targetIdsOf data zoom selectedStopId stop =
     (let isGrouped = (zoom < 33 / 2) in
      if isGrouped
      then filter (\<lambda>id. case map_of (data_stops data) id of
                           None \<Rightarrow> False
                         | Some s \<Rightarrow> Name s = Name stop)
             (map fst (data_stops data))
      else [selectedStopId])"

text \<open>The two nested \<^verbatim>\<open>forEach\<close> that fill \<^verbatim>\<open>allArrivals\<close>.\<close>

definition arrivalBody ::
  "Host \<Rightarrow> AppData \<Rightarrow> string \<Rightarrow> nat \<Rightarrow> string \<Rightarrow> string list \<Rightarrow> string \<Rightarrow> string \<Rightarrow> TripInfo
     \<Rightarrow> Arrival list \<Rightarrow> Arrival list" where
  "arrivalBody host data ymd weekday currentTime targetIds rid tid trip allArrivals =
     (if \<not> isServiceRunningToday_ts host (data_calendar data) (data_extra data) ymd weekday
            (ServiceID trip)
      then allArrivals
      else
        (case find (\<lambda>s. StopID s \<in> set targetIds) (Stops trip) of
           None \<Rightarrow> allArrivals
         | Some st \<Rightarrow>
             allArrivals @
               [\<lparr>time = Time st, route_id = rid, trip_id = tid, headsign = Headsign trip,
                 via = Via trip,
                 platform = (case map_of (data_stops data) (StopID st) of
                               None \<Rightarrow> []
                             | Some pole \<Rightarrow> Platform pole),
                 actual_stop_id = StopID st, is_past = (Time st < currentTime)\<rparr>]))"

definition allArrivalsOf ::
  "Host \<Rightarrow> AppData \<Rightarrow> string \<Rightarrow> nat \<Rightarrow> string \<Rightarrow> string list \<Rightarrow> Arrival list" where
  "allArrivalsOf host data ymd weekday currentTime targetIds =
     fold (\<lambda>(rid, trips) acc.
             fold (\<lambda>(tid, trip) acc.
                     arrivalBody host data ymd weekday currentTime targetIds rid tid trip acc)
               trips acc)
       (data_timetables data) []"

text \<open>
  \<^verbatim>\<open>Array.prototype.sort\<close> with a comparison function \<open>c\<close>, where \<open>c x y \<le> 0\<close> says that
  \<open>x\<close> need not come after \<open>y\<close>. The sort of JavaScript is stable, and when \<open>c\<close> is a
  consistent comparison (a total preorder) its result is the one sorted list that keeps
  the order of level elements, which sorting by insertion computes. For any other \<open>c\<close>
  JavaScript leaves the order to the engine; the result is still a rearrangement of the
  array.
\<close>

fun insort_cmp :: "('a \<Rightarrow> 'a \<Rightarrow> int) \<Rightarrow> 'a \<Rightarrow> 'a list \<Rightarrow> 'a list" where
  "insort_cmp c x [] = [x]"
| "insort_cmp c x (y # ys) = (if c x y \<le> 0 then x # y # ys else y # insort_cmp c x ys)"

definition sort_cmp :: "('a \<Rightarrow> 'a \<Rightarrow> int) \<Rightarrow> 'a list \<Rightarrow> 'a list" where
  "sort_cmp c xs = foldr (insort_cmp c) xs []"

text \<open>\<^verbatim>\<open>allArrivals.sort((a, b) => a.time.localeCompare(b.time))\<close>.\<close>

definition arrivalsFor ::
  "Host \<Rightarrow> AppData \<Rightarrow> string \<Rightarrow> nat \<Rightarrow> string \<Rightarrow> string list \<Rightarrow> Arrival list" where
  "arrivalsFor host data ymd weekday currentTime targetIds =
     sort_cmp (\<lambda>a b. localeCompare host (time a) (time b))
       (allArrivalsOf host data ymd weekday currentTime targetIds)"

subsection \<open>The arrival lists of the specification\<close>

text \<open>The \<^verbatim>\<open>Arrival\<close> of a trip at one of its stop times.\<close>

definition arrivalAt ::
  "AppData \<Rightarrow> string \<Rightarrow> string \<Rightarrow> string \<Rightarrow> TripInfo \<Rightarrow> TripStop \<Rightarrow> Arrival" where
  "arrivalAt data currentTime rid tid trip st =
     \<lparr>time = Time st, route_id = rid, trip_id = tid, headsign = Headsign trip, via = Via trip,
      platform = (case map_of (data_stops data) (StopID st) of
                    None \<Rightarrow> []
                  | Some pole \<Rightarrow> Platform pole),
      actual_stop_id = StopID st, is_past = (Time st < currentTime)\<rparr>"

definition runsToday :: "Host \<Rightarrow> AppData \<Rightarrow> string \<Rightarrow> nat \<Rightarrow> TripInfo \<Rightarrow> bool" where
  "runsToday host data ymd weekday trip =
     isServiceRunningToday_ts host (data_calendar data) (data_extra data) ymd weekday
       (ServiceID trip)"

text \<open>
  As the specification words it: one arrival for every stop time of a running trip whose
  stop is in the set (before sorting).
\<close>

definition stopTimeArrivals ::
  "Host \<Rightarrow> AppData \<Rightarrow> string \<Rightarrow> nat \<Rightarrow> string \<Rightarrow> string list
     \<Rightarrow> string \<times> string \<times> TripInfo \<Rightarrow> Arrival list" where
  "stopTimeArrivals host data ymd weekday currentTime targetIds entry =
     (case entry of (rid, tid, trip) \<Rightarrow>
        if runsToday host data ymd weekday trip
        then map (arrivalAt data currentTime rid tid trip)
               (filter (\<lambda>s. StopID s \<in> set targetIds) (Stops trip))
        else [])"

definition arrivalsPerStopTime ::
  "Host \<Rightarrow> AppData \<Rightarrow> string \<Rightarrow> nat \<Rightarrow> string \<Rightarrow> string list \<Rightarrow> Arrival list" where
  "arrivalsPerStopTime host data ymd weekday currentTime targetIds =
     concat (map (stopTimeArrivals host data ymd weekday currentTime targetIds)
               (allTrips (data_timetables data)))"

text \<open>
  One arrival for every running trip that stops at a stop of the set, at the first such
  stop time of the trip (before sorting).
\<close>

definition tripArrival ::
  "Host \<Rightarrow> AppData \<Rightarrow> string \<Rightarrow> nat \<Rightarrow> string \<Rightarrow> string list
     \<Rightarrow> string \<times> string \<times> TripInfo \<Rightarrow> Arrival list" where
  "tripArrival host data ymd weekday currentTime targetIds entry =
     (case entry of (rid, tid, trip) \<Rightarrow>
        if runsToday host data ymd weekday trip
        then (case find (\<lambda>s. StopID s \<in> set targetIds) (Stops trip) of
                None \<Rightarrow> []
              | Some st \<Rightarrow> [arrivalAt data currentTime rid tid trip st])
        else [])"

definition arrivalsPerTrip ::
  "Host \<Rightarrow> AppData \<Rightarrow> string \<Rightarrow> nat \<Rightarrow> string \<Rightarrow> string list \<Rightarrow> Arrival list" where
  "arrivalsPerTrip host data ymd weekday currentTime targetIds =
     concat (map (tripArrival host data ymd weekday currentTime targetIds)
               (allTrips (data_timetables data)))"

text \<open>
  The collation of the host puts two zero-padded times \<^verbatim>\<open>HH:MM:SS\<close> in the order of their
  bytes. A collation that compares texts from the left and orders the digits from 0 to 9
  does so, as the colons of two such times stand at the same places.
\<close>

definition collatesPaddedTimes :: "Host \<Rightarrow> bool" where
  "collatesPaddedTimes host =
     (\<forall>s t. wellFormedTime s \<and> wellFormedTime t \<longrightarrow> (localeCompare host s t \<le> 0) = (s \<le> t))"

subsection \<open>Reading a stop timetable\<close>

text \<open>The trip under a route and a trip identifier in a nested map, if any.\<close>

definition lookup2 :: "('a \<rightharpoonup> ('b \<rightharpoonup> 'c)) \<Rightarrow> 'a \<Rightarrow> 'b \<Rightarrow> 'c option" where
  "lookup2 f r t = (case f r of None \<Rightarrow> None | Some m \<Rightarrow> m t)"

text \<open>The stop list of the trip contains the stop.\<close>

definition touches :: "string \<Rightarrow> TripInfo \<Rightarrow> bool" where
  "touches stopID trip = (stopID \<in> StopID ` set (Stops trip))"

subsection \<open>A small snapshot\<close>

text \<open>
  Route R1 with the one-minute trip twice, as T1 on a service that runs on weekdays and
  as T2 on a service that never runs; route R2 with the three-stop trip T3, for whose
  pattern there is no shape.
\<close>

definition demoTimetables :: TimetablesData where
  "demoTimetables =
     [(''R1'', [(''T1'', minuteTrip), (''T2'', minuteTrip\<lparr>ServiceID := ''S2''\<rparr>)]),
      (''R2'', [(''T3'', cornerTrip)])]"

definition demoStops :: "(string \<times> StopInfo) list" where
  "demoStops =
     [(''A'', \<lparr>Name = ''Central'', Yomi = [], Lat = 0, Lng = 0, Platform = ''1''\<rparr>),
      (''B'', \<lparr>Name = ''Central'', Yomi = [], Lat = 0, Lng = 75, Platform = ''2''\<rparr>),
      (''C'', \<lparr>Name = ''Park'', Yomi = [], Lat = 0, Lng = 100, Platform = []\<rparr>)]"

definition demoCalendar :: CalendarData where
  "demoCalendar = [''S1'' \<mapsto> longCal, ''S2'' \<mapsto> longCal\<lparr>Days := neverRuns\<rparr>]"

definition demoRoutes :: RoutesData where
  "demoRoutes = [''R1'' \<mapsto> \<lparr>ShortName = ''10'', Color = ''FF0000''\<rparr>]"

definition demoSnapshot :: Snapshot where
  "demoSnapshot =
     \<lparr>stopsCache = map_of demoStops, timetablesCache = demoTimetables,
      shapesCache = minuteShapes, calendarCache = demoCalendar, extraCache = noExtra,
      routesCache = demoRoutes\<rparr>"

definition demoData :: AppData where
  "demoData =
     \<lparr>data_stops = demoStops, data_shapes = minuteShapes, data_timetables = demoTimetables,
      data_calendar = demoCalendar, data_routes = demoRoutes, data_extra = noExtra\<rparr>"

text \<open>
  The data of the client with two trips in the table, T1 before T2, each with one stop, A,
  at the given time.
\<close>

definition twoTrips :: "string \<Rightarrow> string \<Rightarrow> AppData" where
  "twoTrips t1 t2 =
     demoData\<lparr>data_timetables :=
       [(''R1'', [(''T1'', minuteTrip\<lparr>Stops := [\<lparr>Time = t1, StopID = ''A''\<rparr>]\<rparr>),
                  (''T2'', minuteTrip\<lparr>Stops := [\<lparr>Time = t2, StopID = ''A''\<rparr>]\<rparr>)])]\<rparr>"



section \<open>Properties of binary64 rounding\<close>

lemma rne_of_int [simp]: "rne (of_int n) = n"
  by (simp add: rne_def)

lemma rne_bounds: "\<lfloor>x\<rfloor> \<le> rne x" "rne x \<le> \<lfloor>x\<rfloor> + 1"
  by (simp_all add: rne_def Let_def)

lemma rne_mono:
  assumes "x \<le> y"
  shows "rne x \<le> rne y"
proof (cases "\<lfloor>x\<rfloor> = \<lfloor>y\<rfloor>")
  case True
  with assms show ?thesis by (auto simp: rne_def Let_def)
next
  case False
  with assms have "\<lfloor>x\<rfloor> < \<lfloor>y\<rfloor>"
    by (simp add: floor_mono order.not_eq_order_implies_strict)
  with rne_bounds(2)[of x] rne_bounds(1)[of y] show ?thesis by linarith
qed

lemma rne_minus: "rne (- x) = - rne x"
proof (cases "x = of_int \<lfloor>x\<rfloor>")
  case True
  then have "- x = of_int (- \<lfloor>x\<rfloor>)" by simp
  then have "rne (- x) = - \<lfloor>x\<rfloor>" by (simp only: rne_of_int)
  moreover have "rne x = \<lfloor>x\<rfloor>" using True by (metis rne_of_int)
  ultimately show ?thesis by simp
next
  case False
  then have "\<lceil>x\<rceil> = \<lfloor>x\<rfloor> + 1" by (simp add: ceiling_altdef)
  then have f: "\<lfloor>- x\<rfloor> = - \<lfloor>x\<rfloor> - 1" by (simp add: floor_minus)
  define d where "d = x - of_int \<lfloor>x\<rfloor>"
  have d': "- x - of_int (- \<lfloor>x\<rfloor> - 1) = 1 - d" by (simp add: d_def)
  have "rne x = (if d < 1 / 2 then \<lfloor>x\<rfloor> else if 1 / 2 < d then \<lfloor>x\<rfloor> + 1
                 else if even \<lfloor>x\<rfloor> then \<lfloor>x\<rfloor> else \<lfloor>x\<rfloor> + 1)"
    by (simp add: rne_def Let_def d_def)
  moreover have "rne (- x) =
      (if 1 - d < 1 / 2 then - \<lfloor>x\<rfloor> - 1 else if 1 / 2 < 1 - d then - \<lfloor>x\<rfloor>
       else if even (- \<lfloor>x\<rfloor> - 1) then - \<lfloor>x\<rfloor> - 1 else - \<lfloor>x\<rfloor>)"
    unfolding rne_def Let_def f d' by simp
  ultimately show ?thesis by (cases "d < 1 / 2"; cases "1 / 2 < d") auto
qed

lemma bitlen_pow_bounds:
  assumes "0 < a"
  shows "2 powi (bitlen a - 1) \<le> (of_int a :: rat)" "(of_int a :: rat) < 2 powi (bitlen a)"
proof -
  have p: "0 < bitlen a"
    using assms by (metis bitlen_eq_zero_iff bitlen_nonneg not_le order.not_eq_order_implies_strict)
  have "(2::rat) powi (bitlen a - 1) = of_int (2 ^ nat (bitlen a - 1))"
    using p by (simp add: power_int_def)
  also have "\<dots> \<le> of_int a" using bitlen_bounds[OF assms] by (simp only: of_int_le_iff)
  finally show "2 powi (bitlen a - 1) \<le> (of_int a :: rat)" .
  have "(of_int a :: rat) < of_int (2 ^ nat (bitlen a))"
    using bitlen_bounds[OF assms] by (simp only: of_int_less_iff)
  also have "\<dots> = 2 powi (bitlen a)" using p by (simp add: power_int_def)
  finally show "(of_int a :: rat) < 2 powi (bitlen a)" .
qed

text \<open>\<open>expo x\<close> is the binary exponent of \<open>x\<close>.\<close>

lemma expo_bounds:
  assumes "x \<noteq> 0"
  shows "2 powi (expo x) \<le> \<bar>x\<bar> \<and> \<bar>x\<bar> < 2 powi (expo x + 1)"
proof -
  obtain a b where q: "quotient_of \<bar>x\<bar> = (a, b)" by (cases "quotient_of \<bar>x\<bar>")
  have b: "0 < b" using q quotient_of_denom_pos by blast
  have x: "\<bar>x\<bar> = of_int a / of_int b" using q quotient_of_div by blast
  have a: "0 < a"
  proof (rule ccontr)
    assume "\<not> 0 < a"
    then have "of_int a / (of_int b :: rat) \<le> 0" using b by (simp add: divide_nonpos_pos)
    with x assms show False by simp
  qed
  define la where "la = bitlen a"
  define lb where "lb = bitlen b"
  have la: "2 powi (la - 1) \<le> (of_int a :: rat)" "(of_int a :: rat) < 2 powi la"
    using bitlen_pow_bounds[OF a] by (simp_all add: la_def)
  have lb: "2 powi (lb - 1) \<le> (of_int b :: rat)" "(of_int b :: rat) < 2 powi lb"
    using bitlen_pow_bounds[OF b] by (simp_all add: lb_def)
  have bpos: "(0::rat) < of_int b" using b by simp
  have "\<bar>x\<bar> * 2 powi (lb - 1) \<le> \<bar>x\<bar> * of_int b"
    using lb(1) by (intro mult_left_mono) simp_all
  also have "\<dots> = of_int a" using bpos by (simp add: x)
  also have "\<dots> < 2 powi la" by (rule la(2))
  finally have "\<bar>x\<bar> < 2 powi la / 2 powi (lb - 1)"
    by (simp add: pos_less_divide_eq)
  then have up: "\<bar>x\<bar> < 2 powi (la - lb + 1)"
    by (simp add: power_int_diff[symmetric] algebra_simps)
  have "2 powi (la - 1) \<le> (of_int a :: rat)" by (rule la(1))
  also have "\<dots> = \<bar>x\<bar> * of_int b" using bpos by (simp add: x)
  also have "\<dots> \<le> \<bar>x\<bar> * 2 powi lb"
    using lb(2) by (intro mult_left_mono) simp_all
  finally have "2 powi (la - 1) / 2 powi lb \<le> \<bar>x\<bar>"
    by (simp add: pos_divide_le_eq)
  then have lo: "2 powi (la - lb - 1) \<le> \<bar>x\<bar>"
    by (simp add: power_int_diff[symmetric] algebra_simps)
  have e: "expo x = (if 2 powi (la - lb) \<le> \<bar>x\<bar> then la - lb else la - lb - 1)"
    by (simp add: expo_def q la_def lb_def Let_def)
  show ?thesis using up lo unfolding e by (auto simp: not_le)
qed

lemma expo_minus [simp]: "expo (- x) = expo x"
  by (simp add: expo_def)

lemma rnd64_zero [simp]: "rnd64 0 = 0"
  by (simp add: rnd64_def)

lemma rnd64_minus: "rnd64 (- x) = - rnd64 x"
  by (simp add: rnd64_def rne_minus)

lemma rnd64_range:
  assumes "0 < x"
  shows "2 powi (expo x) \<le> rnd64 x" "rnd64 x \<le> 2 powi (expo x + 1)"
proof -
  define u :: rat where "u = 2 powi (expo x - 52)"
  have u: "0 < u" by (simp add: u_def)
  have x0: "x \<noteq> 0" using assms by simp
  have b: "2 powi (expo x) \<le> x" "x < 2 powi (expo x + 1)"
    using expo_bounds[OF x0] assms by simp_all
  have e0: "(2::rat) powi (expo x) = 2 ^ 52 * u"
    by (simp add: u_def power_int_diff)
  have e1: "(2::rat) powi (expo x + 1) = 2 ^ 53 * u"
    by (simp add: u_def power_int_diff power_int_add)
  have "of_int (2 ^ 52) \<le> x / u" using b(1) u by (simp add: e0 pos_le_divide_eq)
  then have "rne (of_int (2 ^ 52)) \<le> rne (x / u)" by (rule rne_mono)
  then have lo: "2 ^ 52 \<le> rne (x / u)" by (simp only: rne_of_int)
  have "x / u \<le> of_int (2 ^ 53)" using b(2) u by (simp add: e1 pos_divide_le_eq)
  then have "rne (x / u) \<le> rne (of_int (2 ^ 53))" by (rule rne_mono)
  then have hi: "rne (x / u) \<le> 2 ^ 53" by (simp only: rne_of_int)
  have r: "rnd64 x = of_int (rne (x / u)) * u" using x0 by (simp add: rnd64_def u_def)
  have "(of_int (2 ^ 52) :: rat) \<le> of_int (rne (x / u))" using lo by (simp only: of_int_le_iff)
  then have "(2::rat) ^ 52 \<le> of_int (rne (x / u))" by simp
  then have "(2::rat) ^ 52 * u \<le> of_int (rne (x / u)) * u"
    using u by (intro mult_right_mono) simp_all
  then show "2 powi (expo x) \<le> rnd64 x" by (simp add: e0 r)
  have "(of_int (rne (x / u)) :: rat) \<le> of_int (2 ^ 53)" using hi by (simp only: of_int_le_iff)
  then have "(of_int (rne (x / u)) :: rat) \<le> 2 ^ 53" by simp
  then have "of_int (rne (x / u)) * u \<le> (2::rat) ^ 53 * u"
    using u by (intro mult_right_mono) simp_all
  then show "rnd64 x \<le> 2 powi (expo x + 1)" by (simp add: e1 r)
qed

lemma rnd64_pos: "0 < x \<Longrightarrow> 0 < rnd64 x"
  using rnd64_range(1)[of x] by (meson less_le_trans zero_less_numeral zero_less_power_int)

lemma rnd64_mono_pos:
  assumes "0 < x" "x \<le> y"
  shows "rnd64 x \<le> rnd64 y"
proof -
  have y: "0 < y" using assms by simp
  have bx: "2 powi (expo x) \<le> x" "x < 2 powi (expo x + 1)"
    using expo_bounds[of x] assms by simp_all
  have by': "2 powi (expo y) \<le> y" "y < 2 powi (expo y + 1)"
    using expo_bounds[of y] y by simp_all
  have le: "expo x \<le> expo y"
  proof (rule ccontr)
    assume "\<not> expo x \<le> expo y"
    then have "expo y + 1 \<le> expo x" by simp
    then have "(2::rat) powi (expo y + 1) \<le> 2 powi (expo x)"
      by (intro power_int_increasing) simp_all
    with bx(1) by'(2) assms(2) show False by simp
  qed
  show ?thesis
  proof (cases "expo x = expo y")
    case True
    define u :: rat where "u = 2 powi (expo x - 52)"
    have u: "0 < u" by (simp add: u_def)
    have "x / u \<le> y / u" using assms(2) u by (simp add: divide_right_mono)
    then have "rne (x / u) \<le> rne (y / u)" by (rule rne_mono)
    then have "(of_int (rne (x / u)) :: rat) * u \<le> of_int (rne (y / u)) * u"
      using u by (intro mult_right_mono) simp_all
    then show ?thesis using assms y True by (simp add: rnd64_def u_def)
  next
    case False
    with le have "expo x + 1 \<le> expo y" by simp
    then have "(2::rat) powi (expo x + 1) \<le> 2 powi (expo y)"
      by (intro power_int_increasing) simp_all
    with rnd64_range(2)[OF assms(1)] rnd64_range(1)[OF y] show ?thesis by simp
  qed
qed

text \<open>Rounding is monotone.\<close>

lemma rnd64_mono:
  assumes "x \<le> y"
  shows "rnd64 x \<le> rnd64 y"
proof -
  consider "0 < x" | "x = 0" "y = 0" | "x = 0" "0 < y" | "x < 0" "0 \<le> y" | "x < 0" "y < 0"
    using assms by linarith
  then show ?thesis
  proof cases
    case 1
    then show ?thesis using assms by (rule rnd64_mono_pos)
  next
    case 2
    then show ?thesis by simp
  next
    case 3
    then show ?thesis using rnd64_pos[of y] by simp
  next
    case 4
    have "0 < rnd64 (- x)" using 4 by (intro rnd64_pos) simp
    then have "rnd64 x < 0" by (simp add: rnd64_minus)
    moreover have "0 \<le> rnd64 y"
      using 4(2) rnd64_pos[of y] by (cases "y = 0") (simp_all add: less_imp_le)
    ultimately show ?thesis by simp
  next
    case 5
    have "rnd64 (- y) \<le> rnd64 (- x)" using 5 assms by (intro rnd64_mono_pos) simp_all
    then show ?thesis by (simp add: rnd64_minus)
  qed
qed

lemma rnd64_exact:
  assumes "x / 2 powi (expo x - 52) = of_int k"
  shows "rnd64 x = x"
proof (cases "x = 0")
  case True
  then show ?thesis by simp
next
  case False
  then have "rnd64 x = of_int (rne (of_int k)) * 2 powi (expo x - 52)"
    by (simp add: rnd64_def assms)
  also have "\<dots> = x / 2 powi (expo x - 52) * 2 powi (expo x - 52)"
    by (simp only: rne_of_int assms)
  also have "\<dots> = x" by simp
  finally show ?thesis .
qed

lemma rnd64_of_nat_exact:
  assumes "0 < n" "n \<le> 2 ^ 53"
  shows "rnd64 (of_int n) = of_int n"
proof -
  define x :: rat where "x = of_int n"
  have x: "0 < x" using assms by (simp add: x_def)
  have b: "2 powi (expo x) \<le> x" "x < 2 powi (expo x + 1)"
    using expo_bounds[of x] x by simp_all
  have "(of_int n :: rat) \<le> of_int (2 ^ 53)" using assms(2) by (simp only: of_int_le_iff)
  then have xle: "x \<le> 2 powi 53" by (simp add: x_def power_int_def)
  have e: "expo x \<le> 53"
  proof (rule ccontr)
    assume "\<not> expo x \<le> 53"
    then have "(2::rat) powi (53 + 1) \<le> 2 powi (expo x)"
      by (intro power_int_increasing) simp_all
    moreover have "(2::rat) powi 53 < 2 powi (53 + 1)"
      by (intro power_int_strict_increasing) simp_all
    ultimately show False using b(1) xle by linarith
  qed
  show ?thesis
  proof (cases "expo x = 53")
    case True
    with b(1) xle have x53: "x = 2 powi 53" by simp
    have "(2::rat) powi (expo x - 52) = 2" by (simp add: True)
    moreover have "(2::rat) powi 53 = 2 * of_int (2 ^ 52)" by (simp add: power_int_def)
    ultimately have "x / 2 powi (expo x - 52) = of_int (2 ^ 52)"
      by (simp only: x53 nonzero_mult_div_cancel_left zero_neq_numeral not_False_eq_True)
    then show ?thesis unfolding x_def[symmetric] by (rule rnd64_exact)
  next
    case False
    with e have e': "expo x \<le> 52" by simp
    define k where "k = nat (52 - expo x)"
    have "expo x - 52 = - int k" using e' by (simp add: k_def)
    then have "(2::rat) powi (expo x - 52) = inverse (2 ^ k)"
      by (simp only: power_int_minus power_int_of_nat)
    then have "x / 2 powi (expo x - 52) = x * 2 ^ k"
      by (simp only: divide_inverse inverse_inverse_eq)
    then have "x / 2 powi (expo x - 52) = of_int (n * 2 ^ k)"
      by (simp add: x_def)
    then show ?thesis unfolding x_def[symmetric] by (rule rnd64_exact)
  qed
qed

text \<open>Integers up to \<open>2 ^ 53\<close> in absolute value are doubles.\<close>

lemma rnd64_of_int_exact:
  assumes "\<bar>n\<bar> \<le> 2 ^ 53"
  shows "rnd64 (of_int n) = of_int n"
proof -
  consider "0 < n" | "n = 0" | "n < 0" by linarith
  then show ?thesis
  proof cases
    case 1
    then show ?thesis using assms by (intro rnd64_of_nat_exact) simp_all
  next
    case 2
    then show ?thesis by simp
  next
    case 3
    then have "rnd64 (of_int (- n)) = of_int (- n)"
      using assms by (intro rnd64_of_nat_exact) simp_all
    then show ?thesis by (simp add: rnd64_minus)
  qed
qed



lemma rnd64_nonneg: "0 \<le> x \<Longrightarrow> 0 \<le> rnd64 x"
  using rnd64_mono[of 0 x] by simp

lemma rnd64_one [simp]: "rnd64 1 = 1"
  using rnd64_of_int_exact[of 1] by simp

lemma float64_mono: "a \<le> b \<Longrightarrow> float64 a \<le> float64 b"
  by (simp add: float64_def rnd64_mono)

lemma float64_zero [simp]: "float64 0 = 0"
  by (simp add: float64_def)

lemma float64_pos: "0 < n \<Longrightarrow> 0 < float64 n"
  by (simp add: float64_def rnd64_pos)

lemma float64_nonneg: "0 \<le> n \<Longrightarrow> 0 \<le> float64 n"
  using float64_mono[of 0 n] by simp


lemma float64_exact: "\<bar>n\<bar> \<le> 2 ^ 53 \<Longrightarrow> float64 n = of_int n"
  by (simp add: float64_def rnd64_of_int_exact)


text \<open>The time ratio lies between 0 and 1 and grows with the time.\<close>

lemma timeRatio_bounds:
  assumes "0 \<le> a" "a \<le> b" "0 < b"
  shows "0 \<le> fdiv (float64 a) (float64 b)" "fdiv (float64 a) (float64 b) \<le> 1"
proof -
  have fb: "0 < float64 b" using assms(3) by (rule float64_pos)
  have fa: "0 \<le> float64 a" using assms(1) by (rule float64_nonneg)
  have le: "float64 a \<le> float64 b" using assms(2) by (rule float64_mono)
  have "0 \<le> float64 a / float64 b" using fa fb by simp
  then show "0 \<le> fdiv (float64 a) (float64 b)" unfolding fdiv_def by (rule rnd64_nonneg)
  have "float64 a / float64 b \<le> 1" using le fb by simp
  then have "rnd64 (float64 a / float64 b) \<le> rnd64 1" by (rule rnd64_mono)
  then show "fdiv (float64 a) (float64 b) \<le> 1" by (simp add: fdiv_def)
qed

lemma timeRatio_mono:
  assumes "a \<le> a'" "0 < b"
  shows "fdiv (float64 a) (float64 b) \<le> fdiv (float64 a') (float64 b)"
proof -
  have fb: "0 < float64 b" using assms(2) by (rule float64_pos)
  have "float64 a / float64 b \<le> float64 a' / float64 b"
    using float64_mono[OF assms(1)] fb by (simp add: divide_right_mono)
  then show ?thesis unfolding fdiv_def by (rule rnd64_mono)
qed

lemma doubleIndex_mono:
  assumes "now \<le> now'" "a \<le> b" "s1 < s2"
  shows "doubleIndex a b now s1 s2 \<le> doubleIndex a b now' s1 s2"
proof -
  have d: "0 \<le> float64 (b - a)" using assms(2) by (intro float64_nonneg) simp
  have "fdiv (float64 (now - s1)) (float64 (s2 - s1)) \<le> fdiv (float64 (now' - s1)) (float64 (s2 - s1))"
    using assms(1,3) by (intro timeRatio_mono) simp_all
  then have "float64 (b - a) * fdiv (float64 (now - s1)) (float64 (s2 - s1))
           \<le> float64 (b - a) * fdiv (float64 (now' - s1)) (float64 (s2 - s1))"
    using d by (rule mult_left_mono)
  then have "fmul (float64 (b - a)) (fdiv (float64 (now - s1)) (float64 (s2 - s1)))
           \<le> fmul (float64 (b - a)) (fdiv (float64 (now' - s1)) (float64 (s2 - s1)))"
    unfolding fmul_def by (rule rnd64_mono)
  then have "fadd (float64 a) (fmul (float64 (b - a)) (fdiv (float64 (now - s1)) (float64 (s2 - s1))))
           \<le> fadd (float64 a) (fmul (float64 (b - a)) (fdiv (float64 (now' - s1)) (float64 (s2 - s1))))"
    unfolding fadd_def by (intro rnd64_mono) simp
  then show ?thesis unfolding doubleIndex_def by (rule floor_mono)
qed


text \<open>Between stop indices up to \<open>2 ^ 53\<close> the target index stays between them.\<close>

lemma doubleIndex_between:
  assumes "0 \<le> a" "a \<le> b" "b \<le> 2 ^ 53" "s1 \<le> now" "now < s2"
  shows "a \<le> doubleIndex a b now s1 s2" "doubleIndex a b now s1 s2 \<le> b"
proof -
  define r where "r = fdiv (float64 (now - s1)) (float64 (s2 - s1))"
  have r: "0 \<le> r" "r \<le> 1"
    unfolding r_def using assms(4,5) by (intro timeRatio_bounds; simp)+
  have fa: "float64 a = of_int a" using assms by (intro float64_exact) simp
  have fb: "float64 b = of_int b" using assms by (intro float64_exact) simp
  have fd: "float64 (b - a) = of_int (b - a)" using assms by (intro float64_exact) simp
  have d0: "(0::rat) \<le> of_int (b - a)" using assms(2) by simp
  have "0 \<le> of_int (b - a) * r" using d0 r(1) by simp
  then have p0: "0 \<le> fmul (of_int (b - a)) r" unfolding fmul_def by (rule rnd64_nonneg)
  have "of_int (b - a) * r \<le> of_int (b - a) * 1" using d0 r(2) by (rule mult_left_mono[rotated])
  then have "rnd64 (of_int (b - a) * r) \<le> rnd64 (of_int (b - a))"
    by (intro rnd64_mono) simp
  then have p1: "fmul (of_int (b - a)) r \<le> of_int (b - a)"
    using fd by (simp add: fmul_def float64_def)
  have "rnd64 (of_int a) \<le> rnd64 (of_int a + fmul (of_int (b - a)) r)"
    using p0 by (intro rnd64_mono) simp
  then have "of_int a \<le> fadd (of_int a) (fmul (of_int (b - a)) r)"
    using fa by (simp add: fadd_def float64_def)
  then have "\<lfloor>(of_int a :: rat)\<rfloor> \<le> \<lfloor>fadd (of_int a) (fmul (of_int (b - a)) r)\<rfloor>"
    by (rule floor_mono)
  then show "a \<le> doubleIndex a b now s1 s2"
    by (simp add: doubleIndex_def fa fd r_def)
  have "rnd64 (of_int a + fmul (of_int (b - a)) r) \<le> rnd64 (of_int b)"
    using p1 by (intro rnd64_mono) simp
  then have "fadd (of_int a) (fmul (of_int (b - a)) r) \<le> of_int b"
    using fb by (simp add: fadd_def float64_def)
  then have "\<lfloor>fadd (of_int a) (fmul (of_int (b - a)) r)\<rfloor> \<le> \<lfloor>(of_int b :: rat)\<rfloor>"
    by (rule floor_mono)
  then show "doubleIndex a b now s1 s2 \<le> b"
    by (simp add: doubleIndex_def fa fd r_def)
qed

section \<open>Properties of the Calendar Resolver\<close>

lemma exceptionLoop_find:
  "exceptionLoop es ymd sid =
     map_option (\<lambda>e. ExceptionType e = ''1'')
       (find (\<lambda>d. Date d = ymd \<and> ExcServiceID d = sid) es)"
  by (induction es) simp_all


text \<open>
  C2. When the exception list holds an entry for the service and the date, the entry that
  the lookup finds (the first one) decides alone: the service runs if and only if its
  type is the text "1", whatever the calendar table says. Server and client agree on this.
\<close>

theorem exception_overrides_calendar:
  assumes "find (\<lambda>d. Date d = ymd \<and> ExcServiceID d = sid) (CalendarDates extra) = Some e"
  shows "isServiceRunningToday_go extra calendar ymd weekday sid = (ExceptionType e = ''1'')
       \<and> isServiceRunningToday_ts host calendar extra ymd weekday sid = (ExceptionType e = ''1'')"
  using assms
  by (simp add: isServiceRunningToday_go_def isServiceRunningToday_ts_def exceptionLoop_find)

theorem exception_overrides_calendar_witness:
  "find (\<lambda>d. Date d = ''20240106'' \<and> ExcServiceID d = ''S1'')
     (CalendarDates (extraOf [\<lparr>ExcServiceID = ''S1'', Date = ''20240106'', ExceptionType = ''1''\<rparr>]))
     = Some \<lparr>ExcServiceID = ''S1'', Date = ''20240106'', ExceptionType = ''1''\<rparr>
   \<and> \<not> weekdayFlag \<lparr>Days = weekdaysOnly, Start = ''20240101'', End = ''20240131''\<rparr> 6
   \<and> isServiceRunningToday_go
        (extraOf [\<lparr>ExcServiceID = ''S1'', Date = ''20240106'', ExceptionType = ''1''\<rparr>])
        (calendarOf ''S1'' \<lparr>Days = weekdaysOnly, Start = ''20240101'', End = ''20240131''\<rparr>)
        ''20240106'' 6 ''S1''
   \<and> isServiceRunningToday_ts demoHost
        (calendarOf ''S1'' \<lparr>Days = weekdaysOnly, Start = ''20240101'', End = ''20240131''\<rparr>)
        (extraOf [\<lparr>ExcServiceID = ''S1'', Date = ''20240106'', ExceptionType = ''1''\<rparr>])
        ''20240106'' 6 ''S1''"
proof -
  have h: "find (\<lambda>d. Date d = ''20240106'' \<and> ExcServiceID d = ''S1'')
     (CalendarDates (extraOf [\<lparr>ExcServiceID = ''S1'', Date = ''20240106'', ExceptionType = ''1''\<rparr>]))
     = Some \<lparr>ExcServiceID = ''S1'', Date = ''20240106'', ExceptionType = ''1''\<rparr>"
    by (simp add: extraOf_def)
  have f: "\<not> weekdayFlag \<lparr>Days = weekdaysOnly, Start = ''20240101'', End = ''20240131''\<rparr> 6"
    by (simp add: weekdayFlag_def weekdaysOnly_def)
  show ?thesis
    using h f exception_overrides_calendar [OF h,
      of "calendarOf ''S1'' \<lparr>Days = weekdaysOnly, Start = ''20240101'', End = ''20240131''\<rparr>" 6
         demoHost]
    by simp
qed















section \<open>Properties of the Position Interpolator\<close>

lemma calculateBusPosition_loop_find:
  "calculateBusPosition_loop stops coords indices now i =
     (case find (\<lambda>j. timeToSec_go (Time (stops ! j)) \<le> now \<and> now < timeToSec_go (Time (stops ! (j + 1))))
             [i ..< length stops - 1] of
        None \<Rightarrow> Inr None
      | Some j \<Rightarrow>
          targetIndex_go coords indices now (timeToSec_go (Time (stops ! j)))
            (timeToSec_go (Time (stops ! (j + 1)))) j)"
proof (induction stops coords indices now i rule: calculateBusPosition_loop.induct)
  case (1 stops coords indices nowSec i)
  show ?case
  proof (cases "i + 1 < length stops")
    case True
    then have u: "[i ..< length stops - Suc 0] = i # [Suc i ..< length stops - Suc 0]"
      by (simp add: upt_conv_Cons)
    show ?thesis
    proof (cases "timeToSec_go (Time (stops ! i)) \<le> nowSec \<and> nowSec < timeToSec_go (Time (stops ! (i + 1)))")
      case g: True
      show ?thesis
        using True g by (subst calculateBusPosition_loop.simps) (simp add: u)
    next
      case g: False
      have "calculateBusPosition_loop stops coords indices nowSec i
              = calculateBusPosition_loop stops coords indices nowSec (i + 1)"
        using True g by (subst calculateBusPosition_loop.simps) (auto simp: Let_def)
      also note "1.IH"[OF True refl refl g]
      finally show ?thesis using g by (auto simp: u)
    qed
  next
    case False
    then have "[i ..< length stops - Suc 0] = []" by simp
    then show ?thesis
      using False by (subst calculateBusPosition_loop.simps) simp
  qed
qed

lemma float64_divisor_pos: "s1 \<le> now \<Longrightarrow> now < s2 \<Longrightarrow> 0 < float64 (s2 - s1)"
  by (intro float64_pos) simp

lemma targetIndex_go_finite:
  "s1 \<le> now \<Longrightarrow> now < s2 \<Longrightarrow> targetIndex_go coords indices now s1 s2 i \<noteq> Inl RatioNotFinite"
  using float64_divisor_pos[of s1 now s2] by (auto simp: targetIndex_go_def Let_def)

lemma calculateBusPosition_loop_finite:
  "calculateBusPosition_loop stops coords indices now i \<noteq> Inl RatioNotFinite"
  unfolding calculateBusPosition_loop_find
  by (auto split: option.splits simp: find_Some_iff targetIndex_go_finite)

lemma calculateBusPosition_finite:
  "calculateBusPosition shapes trip now key \<noteq> Inl RatioNotFinite"
  using calculateBusPosition_loop_finite
  by (auto simp: calculateBusPosition_def calculateBusPosition_index_def split: option.splits sum.splits)

lemma targetCoord_ts_finite:
  assumes "js_le s1 (Some n)" "js_less (Some n) s2"
  shows "targetCoord_ts coords indices now s1 s2 i \<noteq> Inl RatioNotFinite"
proof -
  obtain x y where s: "s1 = Some x" "s2 = Some y" "x \<le> n" "n < y"
    using assms by (auto simp: js_le_def js_less_def split: option.splits)
  have "0 < rnd64 (y - x)" using s by (intro rnd64_pos) simp
  then have "js_sub s2 s1 \<noteq> Some 0" by (simp add: s js_sub_def fsub_def)
  then show ?thesis by (auto simp: targetCoord_ts_def Let_def split: option.splits)
qed

lemma calculateBusPos_loop_finite:
  "calculateBusPos_loop stops coords indices now i \<noteq> Inl RatioNotFinite"
proof (induction stops coords indices now i rule: calculateBusPos_loop.induct)
  case (1 stops coords indices nowSec i)
  show ?case
    using "1.IH" targetCoord_ts_finite
    by (subst calculateBusPos_loop.simps) (auto simp: Let_def)
qed

text \<open>
  C9. A pair of stop times is selected only under the test \<open>s1 \<le> nowSec < s2\<close>, and
  then the divisor \<^verbatim>\<open>float64(s2 - s1)\<close> is positive; a pair of equal times is never
  selected. No run of the server's or of the client's interpolator divides by zero.
\<close>

theorem ratio_divisor_positive:
  "(\<forall>i. stopTime trip i \<le> nowSec \<and> nowSec < stopTime trip (i + 1)
        \<longrightarrow> 0 < float64 (stopTime trip (i + 1) - stopTime trip i))
   \<and> calculateBusPosition shapes trip nowSec key \<noteq> Inl RatioNotFinite
   \<and> calculateBusPos trip nowSec shapes \<noteq> Inl RatioNotFinite"
  using calculateBusPosition_finite calculateBusPos_loop_finite float64_divisor_pos
  by (auto simp: calculateBusPos_def Let_def split: option.splits)

theorem ratio_divisor_positive_witness:
  "stopTime minuteTrip 0 \<le> 28844 \<and> 28844 < stopTime minuteTrip (0 + 1)
   \<and> 0 < float64 (stopTime minuteTrip (0 + 1) - stopTime minuteTrip 0)"
proof -
  have g: "stopTime minuteTrip 0 \<le> 28844 \<and> 28844 < stopTime minuteTrip (0 + 1)"
    by code_simp
  from ratio_divisor_positive [of minuteTrip 28844 minuteShapes "''A|B''"]
  have "stopTime minuteTrip 0 \<le> 28844 \<and> 28844 < stopTime minuteTrip (0 + 1)
        \<longrightarrow> 0 < float64 (stopTime minuteTrip (0 + 1) - stopTime minuteTrip 0)"
    by blast
  with g show ?thesis by blast
qed

lemma calculateBusPosition_index_find:
  "calculateBusPosition_index shapes trip now key =
     (case shapes key of
        None \<Rightarrow> Inr None
      | Some shape \<Rightarrow>
          if Coordinates shape = [] \<or> StopIndices shape = [] then Inr None
          else (case activeInterval trip now of
                  None \<Rightarrow> Inr None
                | Some i \<Rightarrow>
                    targetIndex_go (Coordinates shape) (StopIndices shape) now
                      (stopTime trip i) (stopTime trip (i + 1)) i))"
  by (simp add: calculateBusPosition_index_def calculateBusPosition_loop_find activeInterval_def
      stopTime_def split: option.splits)

lemma activeInterval_Some:
  assumes "activeInterval trip now = Some i"
  shows "i + 1 < length (Stops trip)" "stopTime trip i \<le> now" "now < stopTime trip (i + 1)"
  using assms by (auto simp: activeInterval_def find_Some_iff)






lemma targetIndex_go_SomeD:
  assumes "targetIndex_go coords indices now s1 s2 i = Inr (Some k)"
  shows "i + 1 < length indices"
    and "k = (let t = doubleIndex (indices ! i) (indices ! (i + 1)) now s1 s2
              in if int (length coords) \<le> t then int (length coords) - 1 else t)"
  using assms by (auto simp: targetIndex_go_def Let_def doubleIndex_def split: if_splits)

lemma activeInterval_order:
  assumes "sorted (map (\<lambda>s. timeToSec_go (Time s)) (Stops trip))"
    and "activeInterval trip now = Some i" "activeInterval trip now' = Some i'" "now \<le> now'"
  shows "i \<le> i'"
proof (rule ccontr)
  assume "\<not> i \<le> i'"
  then have lt: "i' + 1 \<le> i" by simp
  note a = activeInterval_Some[OF assms(2)]
  note a' = activeInterval_Some[OF assms(3)]
  have "stopTime trip (i' + 1) \<le> stopTime trip i"
    using assms(1) lt a(1) sorted_nth_mono[of "map (\<lambda>s. timeToSec_go (Time s)) (Stops trip)" "i' + 1" i]
    by (simp add: stopTime_def)
  with a(2) a'(3) assms(4) show False by simp
qed

text \<open>
  C6. Let the stop indices of the shape not decrease and lie between 0 and \<open>2 ^ 53\<close> (a
  position of a slice does; up to there every integer is a double), and let the stop times
  of the trip not decrease, as they do when they strictly increase. Whenever
  \<^verbatim>\<open>calculateBusPosition\<close> returns coordinates at two times \<open>now \<le> now'\<close>, the index read at
  \<open>now\<close> is at most the index read at \<open>now'\<close>, within one interval and across intervals.
\<close>

theorem backing_index_monotone:
  assumes "shapes key = Some shape"
    and "sorted (StopIndices shape)"
    and "\<forall>k\<in>set (StopIndices shape). 0 \<le> k \<and> k \<le> 2 ^ 53"
    and "sorted (map (\<lambda>s. timeToSec_go (Time s)) (Stops trip))"
    and "now \<le> now'"
    and "calculateBusPosition_index shapes trip now key = Inr (Some k)"
    and "calculateBusPosition_index shapes trip now' key = Inr (Some k')"
  shows "k \<le> k'"
proof -
  define coords where "coords = Coordinates shape"
  define indices where "indices = StopIndices shape"
  obtain i where i: "activeInterval trip now = Some i"
    and ti: "targetIndex_go coords indices now (stopTime trip i) (stopTime trip (i + 1)) i = Inr (Some k)"
    using assms(1,6)
    by (auto simp: calculateBusPosition_index_find coords_def indices_def split: if_splits option.splits)
  obtain i' where i': "activeInterval trip now' = Some i'"
    and ti': "targetIndex_go coords indices now' (stopTime trip i') (stopTime trip (i' + 1)) i' = Inr (Some k')"
    using assms(1,7)
    by (auto simp: calculateBusPosition_index_find coords_def indices_def split: if_splits option.splits)
  note a = activeInterval_Some[OF i]
  note a' = activeInterval_Some[OF i']
  define t where "t = doubleIndex (indices ! i) (indices ! (i + 1)) now (stopTime trip i) (stopTime trip (i + 1))"
  define t' where "t' = doubleIndex (indices ! i') (indices ! (i' + 1)) now' (stopTime trip i') (stopTime trip (i' + 1))"
  have li: "i + 1 < length indices" and k: "k = (if int (length coords) \<le> t then int (length coords) - 1 else t)"
    using targetIndex_go_SomeD[OF ti] by (simp_all add: t_def Let_def)
  have li': "i' + 1 < length indices" and k': "k' = (if int (length coords) \<le> t' then int (length coords) - 1 else t')"
    using targetIndex_go_SomeD[OF ti'] by (simp_all add: t'_def Let_def)
  have srt: "indices ! m \<le> indices ! n" if "m \<le> n" "n < length indices" for m n
    using assms(2) that by (simp add: indices_def sorted_nth_mono)
  have rng: "0 \<le> indices ! n \<and> indices ! n \<le> 2 ^ 53" if "n < length indices" for n
    using assms(3) that by (simp add: indices_def)
  have ii': "i \<le> i'" using assms(4) i i' assms(5) by (rule activeInterval_order)
  have "t \<le> t'"
  proof (cases "i = i'")
    case True
    have "doubleIndex (indices ! i) (indices ! (i + 1)) now (stopTime trip i) (stopTime trip (i + 1))
        \<le> doubleIndex (indices ! i) (indices ! (i + 1)) now' (stopTime trip i) (stopTime trip (i + 1))"
      using assms(5) srt[of i "i + 1"] li a(2,3) by (intro doubleIndex_mono) simp_all
    then show ?thesis by (simp add: t_def t'_def True)
  next
    case False
    with ii' have lt: "i + 1 \<le> i'" by simp
    have "t \<le> indices ! (i + 1)"
      unfolding t_def using rng[of i] rng[of "i + 1"] srt[of i "i + 1"] li a(2,3)
      by (intro doubleIndex_between) simp_all
    also have "\<dots> \<le> indices ! i'" using lt li' by (intro srt) simp_all
    also have "\<dots> \<le> t'"
      unfolding t'_def using rng[of i'] rng[of "i' + 1"] srt[of i' "i' + 1"] li' a'(2,3)
      by (intro doubleIndex_between) simp_all
    finally show ?thesis .
  qed
  then show ?thesis unfolding k k' by auto
qed


theorem backing_index_monotone_witness:
  "cornerShapes ''A|B|C'' = Some cornerShape
   \<and> sorted (StopIndices cornerShape)
   \<and> list_all (\<lambda>k. 0 \<le> k \<and> k \<le> 2 ^ 53) (StopIndices cornerShape)
   \<and> sorted (map (\<lambda>s. timeToSec_go (Time s)) (Stops cornerTrip))
   \<and> calculateBusPosition_index cornerShapes cornerTrip 28844 ''A|B|C'' = Inr (Some 54)
   \<and> calculateBusPosition_index cornerShapes cornerTrip 28859 ''A|B|C'' = Inr (Some 73)
   \<and> calculateBusPosition_index cornerShapes cornerTrip 28860 ''A|B|C'' = Inr (Some 75)
   \<and> (54::int) \<le> 73 \<and> (73::int) \<le> 75"
proof -
  have h1: "cornerShapes ''A|B|C'' = Some cornerShape" by (simp add: cornerShapes_def)
  have h2: "sorted (StopIndices cornerShape)" by (simp add: cornerShape_def)
  have h3: "\<forall>k\<in>set (StopIndices cornerShape). 0 \<le> k \<and> k \<le> 2 ^ 53" by (simp add: cornerShape_def)
  have h4: "sorted (map (\<lambda>s. timeToSec_go (Time s)) (Stops cornerTrip))" by code_simp
  have a: "calculateBusPosition_index cornerShapes cornerTrip 28844 ''A|B|C'' = Inr (Some 54)" by code_simp
  have b: "calculateBusPosition_index cornerShapes cornerTrip 28859 ''A|B|C'' = Inr (Some 73)" by code_simp
  have c: "calculateBusPosition_index cornerShapes cornerTrip 28860 ''A|B|C'' = Inr (Some 75)" by code_simp
  have "(54::int) \<le> 73" by (rule backing_index_monotone [OF h1 h2 h3 h4 _ a b]) simp
  moreover have "(73::int) \<le> 75" by (rule backing_index_monotone [OF h1 h2 h3 h4 _ b c]) simp
  moreover have "list_all (\<lambda>k. 0 \<le> k \<and> k \<le> 2 ^ 53) (StopIndices cornerShape)"
    by (simp add: cornerShape_def)
  ultimately show ?thesis using h1 h2 h4 a b c by blast
qed

section \<open>Properties of the Vehicle Locator\<close>













section \<open>Properties of trip detail and stop timetable\<close>

lemma getTripDetail_shape:
  "getTripDetail snap routeID tripID = Inr resp \<Longrightarrow> Shape resp \<noteq> None"
  by (auto simp: getTripDetail_def Let_def split: option.splits)

text \<open>
  C7. The claim does not hold of the handler: it takes the address of a local copy of the
  map entry, so the \<^verbatim>\<open>shape\<close> field of an answer is never \<^verbatim>\<open>null\<close>. For trip T3 of route
  R2, whose pattern has no entry in the geometry table, the answer carries a shape with no
  coordinates and no stop indices.
\<close>

theorem trip_detail_shape_not_null:
  "map_of (timetablesCache demoSnapshot) ''R2'' = Some [(''T3'', cornerTrip)]
   \<and> shapesCache demoSnapshot (patternKeyOf (Stops cornerTrip)) = None
   \<and> map_sum id Shape (getTripDetail demoSnapshot ''R2'' ''T3'')
       = Inr (Some \<lparr>Coordinates = [], StopIndices = []\<rparr>)"
  by code_simp

lemma find_touches: "(find (\<lambda>ts. StopID ts = stopID) (Stops trip) = None) = (\<not> touches stopID trip)"
  by (auto simp: find_None_iff touches_def)

lemma lookup2_filterBody:
  "lookup2 (filterBody stopID routeID tripID trip f) r t =
     (if r = routeID \<and> t = tripID \<and> touches stopID trip then Some trip else lookup2 f r t)"
  using find_touches[of stopID trip]
  by (auto simp: filterBody_def lookup2_def split: option.splits)

lemma allTrips_Cons:
  "allTrips ((routeID, trips) # tt) = map (\<lambda>(tripID, trip). (routeID, tripID, trip)) trips @ allTrips tt"
  by (simp add: allTrips_def)

lemma fold_flat:
  "fold (\<lambda>(routeID, trips) f. fold (\<lambda>(tripID, trip) f. g routeID tripID trip f) trips f) tt f0
     = fold (\<lambda>(routeID, tripID, trip) f. g routeID tripID trip f) (allTrips tt) f0"
proof (induction tt arbitrary: f0)
  case Nil
  then show ?case by (simp add: allTrips_def)
next
  case (Cons e tt)
  obtain routeID trips where e: "e = (routeID, trips)" by (cases e)
  have "fold (\<lambda>(tripID, trip) f. g routeID tripID trip f) trips f0
      = fold (\<lambda>(routeID, tripID, trip) f. g routeID tripID trip f)
          (map (\<lambda>(tripID, trip). (routeID, tripID, trip)) trips) f0"
    by (simp add: fold_map comp_def case_prod_unfold)
  then show ?case unfolding e allTrips_Cons fold_append comp_apply fold_Cons case_prod_conv
    by (simp only: Cons.IH)
qed

lemma lookup2_fold:
  assumes "distinct (map (\<lambda>(r, t, trip). (r, t)) xs)"
  shows "(lookup2 (fold (\<lambda>(routeID, tripID, trip) f. filterBody stopID routeID tripID trip f) xs f) r t
            = Some trip)
       = (((r, t, trip) \<in> set xs \<and> touches stopID trip)
          \<or> ((\<forall>trip'. (r, t, trip') \<in> set xs \<longrightarrow> \<not> touches stopID trip') \<and> lookup2 f r t = Some trip))"
  using assms
proof (induction xs arbitrary: f)
  case Nil
  then show ?case by simp
next
  case (Cons x xs)
  obtain r0 t0 trip0 where x: "x = (r0, t0, trip0)" by (cases x)
  have d: "distinct (map (\<lambda>(r, t, trip). (r, t)) xs)" using Cons.prems by simp
  have n: "(r0, t0, trip') \<notin> set xs" for trip'
    using Cons.prems x by (auto intro: rev_image_eqI)
  show ?case
    unfolding x fold_Cons comp_apply case_prod_conv Cons.IH[OF d] lookup2_filterBody
    using n by auto
qed


lemma getStopTimetable_lookup:
  assumes "stopsCache snap sid = Some stop"
    and "distinct (map (\<lambda>(r, t, trip). (r, t)) (allTrips (timetablesCache snap)))"
  shows "\<exists>resp. getStopTimetable snap sid = Inr resp
           \<and> (\<forall>r t trip. (lookup2 (Timetables resp) r t = Some trip)
                  = ((r, t, trip) \<in> set (allTrips (timetablesCache snap)) \<and> touches sid trip))"
  using assms(1) lookup2_fold[OF assms(2), of sid Map.empty]
  by (simp add: getStopTimetable_def Let_def fold_flat lookup2_def)

lemma getStopTimetable_calendar:
  "getStopTimetable (snap\<lparr>calendarCache := c, extraCache := e\<rparr>) sid = getStopTimetable snap sid"
  by (cases "stopsCache snap sid") (simp_all add: getStopTimetable_def Let_def)

section \<open>Properties of zero-padded times\<close>



lemma wellFormedTime_cases:
  assumes "wellFormedTime t"
  obtains a b c d e f where "t = [a, b, CHR '':'', c, d, CHR '':'', e, f]"
    "isDigit a" "isDigit b" "isDigit c" "isDigit d" "isDigit e" "isDigit f"
proof -
  from assms have l: "length t = 8" by (simp add: wellFormedTime_def)
  then obtain a b x c d y e f where t: "t = [a, b, x, c, d, y, e, f]"
    by (auto simp: eval_nat_numeral length_Suc_conv)
  show ?thesis
    using assms that[of a b c d e f] unfolding t by (simp add: wellFormedTime_def)
qed

lemma decimal2: "decimal [a, b] = 10 * digitVal a + digitVal b"
  by (simp add: decimal_def)




section \<open>Properties of the Arrival Aggregator\<close>

lemma arrivalBody_append:
  "arrivalBody host data ymd weekday cur ids rid tid trip acc =
     acc @ (if runsToday host data ymd weekday trip
            then (case find (\<lambda>s. StopID s \<in> set ids) (Stops trip) of
                    None \<Rightarrow> []
                  | Some st \<Rightarrow> [arrivalAt data cur rid tid trip st])
            else [])"
  by (simp add: arrivalBody_def runsToday_def arrivalAt_def split: option.splits)

lemma fold_arrivalBody:
  "fold (\<lambda>(rid, tid, trip) acc. arrivalBody host data ymd weekday cur ids rid tid trip acc) xs acc0
     = acc0 @ concat (map (tripArrival host data ymd weekday cur ids) xs)"
  by (induction xs arbitrary: acc0) (auto simp: arrivalBody_append tripArrival_def)

lemma allArrivalsOf_perTrip:
  "allArrivalsOf host data ymd weekday cur ids = arrivalsPerTrip host data ymd weekday cur ids"
proof -
  have "allArrivalsOf host data ymd weekday cur ids =
          fold (\<lambda>(rid, tid, trip) acc. arrivalBody host data ymd weekday cur ids rid tid trip acc)
            (allTrips (data_timetables data)) []"
    unfolding allArrivalsOf_def
    using fold_flat[of "arrivalBody host data ymd weekday cur ids" "data_timetables data" "[]"] .
  then show ?thesis by (simp add: fold_arrivalBody arrivalsPerTrip_def)
qed

lemma arrivalsPerTrip_member:
  assumes "a \<in> set (arrivalsPerTrip host data ymd weekday cur ids)"
  shows "\<exists>trip st. (route_id a, trip_id a, trip) \<in> set (allTrips (data_timetables data))
           \<and> runsToday host data ymd weekday trip
           \<and> find (\<lambda>s. StopID s \<in> set ids) (Stops trip) = Some st
           \<and> a = arrivalAt data cur (route_id a) (trip_id a) trip st"
proof -
  from assms obtain rid tid trip
    where e: "(rid, tid, trip) \<in> set (allTrips (data_timetables data))"
      and a: "a \<in> set (tripArrival host data ymd weekday cur ids (rid, tid, trip))"
    unfolding arrivalsPerTrip_def by auto
  have r: "runsToday host data ymd weekday trip"
    using a by (cases "runsToday host data ymd weekday trip") (simp_all add: tripArrival_def)
  obtain st where f: "find (\<lambda>s. StopID s \<in> set ids) (Stops trip) = Some st"
    using a r by (cases "find (\<lambda>s. StopID s \<in> set ids) (Stops trip)") (simp_all add: tripArrival_def)
  have v: "a = arrivalAt data cur rid tid trip st"
    using a r f by (simp add: tripArrival_def)
  have k: "route_id a = rid" "trip_id a = tid" by (simp_all add: v arrivalAt_def)
  show ?thesis using e r f v unfolding k by blast
qed

text \<open>The sort rearranges the list, whatever the comparison.\<close>

lemma mset_insort_cmp: "mset (insort_cmp c x xs) = add_mset x (mset xs)"
  by (induction xs) simp_all

lemma mset_sort_cmp: "mset (sort_cmp c xs) = mset xs"
  by (induction xs) (simp_all add: sort_cmp_def mset_insort_cmp)

lemma set_sort_cmp: "set (sort_cmp c xs) = set xs"
  using mset_sort_cmp[of c xs] by (metis set_mset_mset)

lemma distinct_map_sort_cmp:
  "distinct (map g (sort_cmp c xs)) = distinct (map g xs)"
proof -
  have "mset (map g (sort_cmp c xs)) = mset (map g xs)"
    by (simp add: mset_sort_cmp)
  then show ?thesis by (rule mset_eq_imp_distinct_iff)
qed

text \<open>
  With a comparison that agrees with the order of a key on the elements of the list, the
  sort is the stable sort by that key.
\<close>

lemma insort_cmp_insort_key:
  assumes "\<forall>y\<in>set xs. (c x y \<le> 0) = (f x \<le> f y)"
  shows "insort_cmp c x xs = insort_key f x xs"
  using assms by (induction xs) simp_all

lemma sort_cmp_sort_key:
  assumes "\<forall>x\<in>set xs. \<forall>y\<in>set xs. (c x y \<le> 0) = (f x \<le> f y)"
  shows "sort_cmp c xs = sort_key f xs"
  using assms
proof (induction xs)
  case Nil
  then show ?case by (simp add: sort_cmp_def)
next
  case (Cons x xs)
  have ih: "sort_cmp c xs = sort_key f xs" using Cons by simp
  have "\<forall>y\<in>set (sort_key f xs). (c x y \<le> 0) = (f x \<le> f y)" using Cons.prems by simp
  then have "insort_cmp c x (sort_key f xs) = insort_key f x (sort_key f xs)"
    by (rule insort_cmp_insort_key)
  then show ?case using ih by (simp add: sort_cmp_def)
qed

lemma tripArrival_keys:
  "map (\<lambda>a. (route_id a, trip_id a)) (concat (map (tripArrival host data ymd weekday cur ids) xs))
     = map (\<lambda>(r, t, trip). (r, t))
         (filter (\<lambda>(r, t, trip). runsToday host data ymd weekday trip
                    \<and> find (\<lambda>s. StopID s \<in> set ids) (Stops trip) \<noteq> None) xs)"
  by (induction xs) (auto simp: tripArrival_def arrivalAt_def split: option.splits if_splits)

lemma arrivalsPerTrip_distinct:
  assumes "distinct (map (\<lambda>(r, t, trip). (r, t)) (allTrips (data_timetables data)))"
  shows "distinct (map (\<lambda>a. (route_id a, trip_id a)) (arrivalsPerTrip host data ymd weekday cur ids))"
  unfolding arrivalsPerTrip_def tripArrival_keys
  using assms by (rule distinct_map_filter)

lemma filter_at_most_one:
  assumes "length (filter P xs) \<le> 1"
  shows "map f (filter P xs) = (case find P xs of None \<Rightarrow> [] | Some x \<Rightarrow> [f x])"
  using assms
proof (induction xs)
  case Nil
  then show ?case by simp
next
  case (Cons x xs)
  show ?case
  proof (cases "P x")
    case True
    then have "filter P xs = []" using Cons.prems by simp
    then show ?thesis using True by simp
  next
    case False
    then show ?thesis using Cons by simp
  qed
qed

lemma perStopTime_perTrip:
  assumes "\<forall>(r, t, trip)\<in>set xs. length (filter (\<lambda>s. StopID s \<in> set ids) (Stops trip)) \<le> 1"
  shows "concat (map (stopTimeArrivals host data ymd weekday cur ids) xs)
       = concat (map (tripArrival host data ymd weekday cur ids) xs)"
proof -
  have "stopTimeArrivals host data ymd weekday cur ids e = tripArrival host data ymd weekday cur ids e"
    if "e \<in> set xs" for e
  proof -
    obtain r t trip where e: "e = (r, t, trip)" by (cases e)
    have "length (filter (\<lambda>s. StopID s \<in> set ids) (Stops trip)) \<le> 1"
      using assms that e by auto
    then show ?thesis
      by (simp add: e stopTimeArrivals_def tripArrival_def filter_at_most_one)
  qed
  then show ?thesis by (simp cong: map_cong)
qed

text \<open>
  The collation that puts the colon before the digits orders zero-padded times as their
  bytes.
\<close>

lemma collationKey_digits:
  assumes "isDigit a" "isDigit b"
  shows "(collationKey a < collationKey b) = (a < b)" "(collationKey a = collationKey b) = (a = b)"
  using assms by (auto simp: collationKey_def less_char_def)

lemma keyCompare_le: "(keyCompare s t \<le> 0) = (map collationKey s \<le> map collationKey t)"
  by (auto simp: keyCompare_def Let_def)

lemma collatesPaddedTimes_punctFirstHost: "collatesPaddedTimes punctFirstHost"
  unfolding collatesPaddedTimes_def
proof (intro allI impI)
  fix s t
  assume "wellFormedTime s \<and> wellFormedTime t"
  then have ws: "wellFormedTime s" and wt: "wellFormedTime t" by simp_all
  from ws obtain a b c d e f where s: "s = [a, b, CHR '':'', c, d, CHR '':'', e, f]"
    and ds: "isDigit a" "isDigit b" "isDigit c" "isDigit d" "isDigit e" "isDigit f"
    by (rule wellFormedTime_cases)
  from wt obtain a' b' c' d' e' f' where t: "t = [a', b', CHR '':'', c', d', CHR '':'', e', f']"
    and dt: "isDigit a'" "isDigit b'" "isDigit c'" "isDigit d'" "isDigit e'" "isDigit f'"
    by (rule wellFormedTime_cases)
  show "(localeCompare punctFirstHost s t \<le> 0) = (s \<le> t)"
    unfolding punctFirstHost_def s t
    by (simp add: keyCompare_le collationKey_digits ds dt)
qed

text \<open>
  C5, as amended. For every list of target stop ids the arrival list holds one
  \<^verbatim>\<open>Arrival\<close> for each trip whose service runs today and that stops at a stop of the list,
  taken at the first such stop time of the trip and carrying the time, the route id, the
  trip id, the headsign, the via text, the platform and the id of that stop and the flag
  \<open>is_past = (time < currentTime)\<close>, and nothing else. With every route and trip id
  occurring once in the table, no two arrivals belong to the same trip. When no trip has
  more than one stop time at the stops of the list, this is one arrival for every matching
  stop time. The list is in the order of \<^verbatim>\<open>localeCompare\<close>: when the times of the arrivals
  are zero-padded \<^verbatim>\<open>HH:MM:SS\<close> and the collation of the host orders such times as their
  bytes, it is sorted by time in the order of strings, arrivals with the same time staying
  in the order of the table.
\<close>

theorem arrivals_first_match_per_trip:
  "mset (arrivalsFor host data ymd weekday cur ids)
     = mset (arrivalsPerTrip host data ymd weekday cur ids)
   \<and> (collatesPaddedTimes host
        \<and> (\<forall>a\<in>set (arrivalsPerTrip host data ymd weekday cur ids). wellFormedTime (time a))
      \<longrightarrow> arrivalsFor host data ymd weekday cur ids
            = sort_key time (arrivalsPerTrip host data ymd weekday cur ids)
          \<and> sorted (map time (arrivalsFor host data ymd weekday cur ids)))
   \<and> (distinct (map (\<lambda>(r, t, trip). (r, t)) (allTrips (data_timetables data)))
        \<longrightarrow> distinct (map (\<lambda>a. (route_id a, trip_id a)) (arrivalsFor host data ymd weekday cur ids)))
   \<and> ((\<forall>(r, t, trip)\<in>set (allTrips (data_timetables data)).
          length (filter (\<lambda>s. StopID s \<in> set ids) (Stops trip)) \<le> 1)
        \<longrightarrow> mset (arrivalsFor host data ymd weekday cur ids)
              = mset (arrivalsPerStopTime host data ymd weekday cur ids))"
proof -
  define A where "A = arrivalsFor host data ymd weekday cur ids"
  define P where "P = arrivalsPerTrip host data ymd weekday cur ids"
  have A: "A = sort_cmp (\<lambda>a b. localeCompare host (time a) (time b)) P"
    by (simp add: A_def P_def arrivalsFor_def allArrivalsOf_perTrip)
  have a: "mset A = mset P"
    unfolding A by (rule mset_sort_cmp)
  have b: "A = sort_key time P \<and> sorted (map time A)"
    if "collatesPaddedTimes host" "\<forall>a\<in>set P. wellFormedTime (time a)"
  proof -
    have "\<forall>x\<in>set P. \<forall>y\<in>set P. (localeCompare host (time x) (time y) \<le> 0) = (time x \<le> time y)"
      using that by (simp add: collatesPaddedTimes_def)
    then have "A = sort_key time P" unfolding A by (rule sort_cmp_sort_key)
    then show ?thesis by simp
  qed
  have c: "distinct (map (\<lambda>a. (route_id a, trip_id a)) A)"
    if "distinct (map (\<lambda>(r, t, trip). (r, t)) (allTrips (data_timetables data)))"
    unfolding A distinct_map_sort_cmp P_def using that by (rule arrivalsPerTrip_distinct)
  have d: "mset A = mset (arrivalsPerStopTime host data ymd weekday cur ids)"
    if "\<forall>(r, t, trip)\<in>set (allTrips (data_timetables data)).
          length (filter (\<lambda>s. StopID s \<in> set ids) (Stops trip)) \<le> 1"
    unfolding a P_def arrivalsPerStopTime_def arrivalsPerTrip_def perStopTime_perTrip[OF that] ..
  show ?thesis using a b c d unfolding A_def P_def by blast
qed

theorem arrivals_first_match_per_trip_witness:
  "distinct (map (\<lambda>(r, t, trip). (r, t)) (allTrips (data_timetables demoData)))
   \<and> list_all (\<lambda>a. wellFormedTime (time a))
        (arrivalsPerTrip demoHost demoData ''20240103'' 3 ''08:00:30'' [''A'', ''B''])
   \<and> arrivalsFor demoHost demoData ''20240103'' 3 ''08:00:30'' [''A'', ''B'']
       = [\<lparr>time = ''08:00:00'', route_id = ''R1'', trip_id = ''T1'', headsign = ''Sendai'',
            via = [], platform = ''1'', actual_stop_id = ''A'', is_past = True\<rparr>,
          \<lparr>time = ''08:00:00'', route_id = ''R2'', trip_id = ''T3'', headsign = ''Izumi'',
            via = [], platform = ''1'', actual_stop_id = ''A'', is_past = True\<rparr>]
   \<and> distinct (map (\<lambda>a. (route_id a, trip_id a))
        (arrivalsFor demoHost demoData ''20240103'' 3 ''08:00:30'' [''A'', ''B'']))
   \<and> list_all (\<lambda>(r, t, trip). length (filter (\<lambda>s. StopID s \<in> set [''B'', ''C'']) (Stops trip)) \<le> 1)
        (allTrips (data_timetables demoData)) = False
   \<and> list_all (\<lambda>(r, t, trip). length (filter (\<lambda>s. StopID s \<in> set [''C'']) (Stops trip)) \<le> 1)
        (allTrips (data_timetables demoData))
   \<and> mset (arrivalsFor demoHost demoData ''20240103'' 3 ''08:00:30'' [''C''])
       = {#\<lparr>time = ''08:03:00'', route_id = ''R2'', trip_id = ''T3'', headsign = ''Izumi'',
            via = [], platform = [], actual_stop_id = ''C'', is_past = False\<rparr>#}
   \<and> list_all (\<lambda>a. wellFormedTime (time a))
        (arrivalsPerTrip punctFirstHost (twoTrips ''10:00:00'' ''01:30:00'') ''20240103'' 3
           ''08:00:30'' [''A''])
   \<and> map trip_id (arrivalsPerTrip punctFirstHost (twoTrips ''10:00:00'' ''01:30:00'')
                      ''20240103'' 3 ''08:00:30'' [''A''])
       = [''T1'', ''T2'']
   \<and> map (\<lambda>a. (trip_id a, time a))
        (arrivalsFor punctFirstHost (twoTrips ''10:00:00'' ''01:30:00'') ''20240103'' 3
           ''08:00:30'' [''A''])
       = [(''T2'', ''01:30:00''), (''T1'', ''10:00:00'')]"
proof -
  have ch: "collatesPaddedTimes demoHost"
    by (auto simp: collatesPaddedTimes_def demoHost_def byteCompare_def)
  have wf2: "list_all (\<lambda>a. wellFormedTime (time a))
        (arrivalsPerTrip punctFirstHost (twoTrips ''10:00:00'' ''01:30:00'') ''20240103'' 3
           ''08:00:30'' [''A''])"
    by code_simp
  have u: "map trip_id (arrivalsPerTrip punctFirstHost (twoTrips ''10:00:00'' ''01:30:00'')
                      ''20240103'' 3 ''08:00:30'' [''A''])
       = [''T1'', ''T2'']"
    by code_simp
  have p2: "map (\<lambda>a. (trip_id a, time a))
        (sort_key time (arrivalsPerTrip punctFirstHost (twoTrips ''10:00:00'' ''01:30:00'')
           ''20240103'' 3 ''08:00:30'' [''A'']))
       = [(''T2'', ''01:30:00''), (''T1'', ''10:00:00'')]"
    by code_simp
  have a5: "arrivalsFor punctFirstHost (twoTrips ''10:00:00'' ''01:30:00'') ''20240103'' 3
           ''08:00:30'' [''A'']
       = sort_key time (arrivalsPerTrip punctFirstHost (twoTrips ''10:00:00'' ''01:30:00'')
           ''20240103'' 3 ''08:00:30'' [''A''])"
    using arrivals_first_match_per_trip
            [of punctFirstHost "twoTrips ''10:00:00'' ''01:30:00''" "''20240103''" 3 "''08:00:30''"
               "[''A'']"]
          collatesPaddedTimes_punctFirstHost wf2
    unfolding list_all_iff by blast
  have d: "distinct (map (\<lambda>(r, t, trip). (r, t)) (allTrips (data_timetables demoData)))"
    by code_simp
  have wf: "list_all (\<lambda>a. wellFormedTime (time a))
        (arrivalsPerTrip demoHost demoData ''20240103'' 3 ''08:00:30'' [''A'', ''B''])"
    by code_simp
  have p: "sort_key time (arrivalsPerTrip demoHost demoData ''20240103'' 3 ''08:00:30'' [''A'', ''B''])
       = [\<lparr>time = ''08:00:00'', route_id = ''R1'', trip_id = ''T1'', headsign = ''Sendai'',
            via = [], platform = ''1'', actual_stop_id = ''A'', is_past = True\<rparr>,
          \<lparr>time = ''08:00:00'', route_id = ''R2'', trip_id = ''T3'', headsign = ''Izumi'',
            via = [], platform = ''1'', actual_stop_id = ''A'', is_past = True\<rparr>]"
    by code_simp
  have n: "list_all (\<lambda>(r, t, trip). length (filter (\<lambda>s. StopID s \<in> set [''B'', ''C'']) (Stops trip)) \<le> 1)
        (allTrips (data_timetables demoData)) = False"
    by code_simp
  have o: "list_all (\<lambda>(r, t, trip). length (filter (\<lambda>s. StopID s \<in> set [''C'']) (Stops trip)) \<le> 1)
        (allTrips (data_timetables demoData))"
    by code_simp
  have q: "arrivalsPerStopTime demoHost demoData ''20240103'' 3 ''08:00:30'' [''C'']
       = [\<lparr>time = ''08:03:00'', route_id = ''R2'', trip_id = ''T3'', headsign = ''Izumi'',
            via = [], platform = [], actual_stop_id = ''C'', is_past = False\<rparr>]"
    by code_simp
  note t1 = arrivals_first_match_per_trip
              [of demoHost demoData "''20240103''" 3 "''08:00:30''" "[''A'', ''B'']"]
  note t2 = arrivals_first_match_per_trip
              [of demoHost demoData "''20240103''" 3 "''08:00:30''" "[''C'']"]
  have a1: "arrivalsFor demoHost demoData ''20240103'' 3 ''08:00:30'' [''A'', ''B'']
       = sort_key time (arrivalsPerTrip demoHost demoData ''20240103'' 3 ''08:00:30'' [''A'', ''B''])"
    using t1 ch wf unfolding list_all_iff by blast
  have a2: "distinct (map (\<lambda>a. (route_id a, trip_id a))
        (arrivalsFor demoHost demoData ''20240103'' 3 ''08:00:30'' [''A'', ''B'']))"
    using t1 d by blast
  have a3: "mset (arrivalsFor demoHost demoData ''20240103'' 3 ''08:00:30'' [''C''])
       = mset (arrivalsPerStopTime demoHost demoData ''20240103'' 3 ''08:00:30'' [''C''])"
    using t2 o unfolding list_all_iff by blast
  have a4: "mset (arrivalsFor demoHost demoData ''20240103'' 3 ''08:00:30'' [''C''])
       = {#\<lparr>time = ''08:03:00'', route_id = ''R2'', trip_id = ''T3'', headsign = ''Izumi'',
            via = [], platform = [], actual_stop_id = ''C'', is_past = False\<rparr>#}"
    unfolding a3 q by simp
  show ?thesis
    using d wf a1[unfolded p] a2 n o a4 wf2 u p2[folded a5] by blast
qed

text \<open>
  Times that are not zero-padded come in the order of the collation, not in that of their
  bytes: with the colon before the digits, \<^verbatim>\<open>1:30:00\<close> comes before \<^verbatim>\<open>10:00:00\<close>.
\<close>

lemma arrivals_follow_collation:
  "map time (arrivalsFor demoHost (twoTrips ''10:00:00'' ''1:30:00'') ''20240103'' 3 ''08:00:30'' [''A''])
     = [''10:00:00'', ''1:30:00'']
   \<and> map time (arrivalsFor punctFirstHost (twoTrips ''10:00:00'' ''1:30:00'') ''20240103'' 3
                 ''08:00:30'' [''A''])
     = [''1:30:00'', ''10:00:00'']"
  by code_simp

text \<open>
  C5, as stated, fails: trip T1 stops at A and at B, the two stops named Central, and
  the list for the two stops holds its arrival at A only, not one for each of the two
  matching stop times.
\<close>

theorem arrivals_per_stop_time_counterexample:
  "arrivalsFor demoHost demoData ''20240103'' 3 ''08:00:30'' [''A'', ''B'']
     \<noteq> sort_key time (arrivalsPerStopTime demoHost demoData ''20240103'' 3 ''08:00:30'' [''A'', ''B''])"
  by code_simp

text \<open>
  C10. For a stop of the stop table, and with every route and trip id occurring once in
  the trip table, the answer of the stop-timetable handler holds trip \<open>t\<close> under route \<open>r\<close>
  exactly when the table holds it there and its stop list contains the stop. The answer is
  the same for any calendar table and exception list, so a trip whose service does not run
  today is included. The filter by service day is in the client: every arrival of its
  list belongs to a trip whose service runs today.
\<close>

theorem stop_timetable_not_filtered_by_service:
  assumes "stopsCache snap sid = Some stop"
    and "distinct (map (\<lambda>(r, t, trip). (r, t)) (allTrips (timetablesCache snap)))"
  shows "\<exists>resp. getStopTimetable snap sid = Inr resp
           \<and> (\<forall>r t trip. (lookup2 (Timetables resp) r t = Some trip)
                  = ((r, t, trip) \<in> set (allTrips (timetablesCache snap)) \<and> touches sid trip))
           \<and> getStopTimetable (snap\<lparr>calendarCache := c, extraCache := e\<rparr>) sid = Inr resp
           \<and> (\<forall>a\<in>set (arrivalsFor host data ymd weekday cur ids).
                 \<exists>trip. (route_id a, trip_id a, trip) \<in> set (allTrips (data_timetables data))
                      \<and> runsToday host data ymd weekday trip)"
proof -
  obtain resp where r: "getStopTimetable snap sid = Inr resp"
    and l: "\<forall>r t trip. (lookup2 (Timetables resp) r t = Some trip)
                  = ((r, t, trip) \<in> set (allTrips (timetablesCache snap)) \<and> touches sid trip)"
    using getStopTimetable_lookup[OF assms] by blast
  have "\<exists>trip. (route_id a, trip_id a, trip) \<in> set (allTrips (data_timetables data))
              \<and> runsToday host data ymd weekday trip"
    if "a \<in> set (arrivalsFor host data ymd weekday cur ids)" for a
  proof -
    from that have "a \<in> set (arrivalsPerTrip host data ymd weekday cur ids)"
      by (simp add: arrivalsFor_def allArrivalsOf_perTrip set_sort_cmp)
    from arrivalsPerTrip_member[OF this] show ?thesis by blast
  qed
  with r l show ?thesis by (simp add: getStopTimetable_calendar)
qed

theorem stop_timetable_not_filtered_by_service_witness:
  "\<exists>resp. getStopTimetable demoSnapshot ''A'' = Inr resp
      \<and> lookup2 (Timetables resp) ''R1'' ''T2'' = Some (minuteTrip\<lparr>ServiceID := ''S2''\<rparr>)
      \<and> \<not> isServiceRunningToday_go (extraCache demoSnapshot) (calendarCache demoSnapshot)
             ''20240103'' 3 (ServiceID (minuteTrip\<lparr>ServiceID := ''S2''\<rparr>))
      \<and> map trip_id (arrivalsFor demoHost demoData ''20240103'' 3 ''08:00:30'' [''A'']) = [''T1'', ''T3'']"
proof -
  have s: "stopsCache demoSnapshot ''A''
             = Some \<lparr>Name = ''Central'', Yomi = [], Lat = 0, Lng = 0, Platform = ''1''\<rparr>"
    by (simp add: demoSnapshot_def demoStops_def)
  have d: "distinct (map (\<lambda>(r, t, trip). (r, t)) (allTrips (timetablesCache demoSnapshot)))"
    by code_simp
  have m: "(''R1'', ''T2'', minuteTrip\<lparr>ServiceID := ''S2''\<rparr>) \<in> set (allTrips (timetablesCache demoSnapshot))"
    by (simp add: allTrips_def demoSnapshot_def demoTimetables_def)
  have t: "touches ''A'' (minuteTrip\<lparr>ServiceID := ''S2''\<rparr>)"
    by (simp add: touches_def minuteTrip_def)
  have n: "\<not> isServiceRunningToday_go (extraCache demoSnapshot) (calendarCache demoSnapshot)
             ''20240103'' 3 (ServiceID (minuteTrip\<lparr>ServiceID := ''S2''\<rparr>))"
    by code_simp
  have a: "map trip_id (arrivalsFor demoHost demoData ''20240103'' 3 ''08:00:30'' [''A'']) = [''T1'', ''T3'']"
    by code_simp
  from stop_timetable_not_filtered_by_service [OF s d]
  obtain resp where r: "getStopTimetable demoSnapshot ''A'' = Inr resp"
    and l: "\<forall>r t trip. (lookup2 (Timetables resp) r t = Some trip)
                  = ((r, t, trip) \<in> set (allTrips (timetablesCache demoSnapshot)) \<and> touches ''A'' trip)"
    by blast
  have "lookup2 (Timetables resp) ''R1'' ''T2'' = Some (minuteTrip\<lparr>ServiceID := ''S2''\<rparr>)"
    using l m t by simp
  with r n a show ?thesis by (intro exI[of _ resp] conjI)
qed


section \<open>Agreement of client and server\<close>














end
